theory Spec2Isabelle
  imports Main "HOL-Library.AList" "HOL-Library.Char_ord" "HOL-Library.List_Lexorder"
begin

section \<open>JavaScript values\<close>

text \<open>
  The generator in \<^verbatim>\<open>generators/app/index.js\<close> works on JSON documents (the manifest
  \<^verbatim>\<open>package.json\<close>) and on plain JavaScript objects (\<^verbatim>\<open>this.props\<close>, the prompt
  answers). A value is one of JavaScript's JSON-representable values, or \<^verbatim>\<open>undefined\<close>.
  An object is an association list in property order, its keys distinct. A string is
  the list of the bytes of its UTF-8 form. Numbers are integers here: only their
  truthiness is ever inspected.
\<close>

datatype jsval =
    JUndefined
  | JNull
  | JBool bool
  | JNum int
  | JStr string
  | JArr "jsval list"
  | JObj "(string \<times> jsval) list"

type_synonym obj = "(string \<times> jsval) list"

text \<open>\<^verbatim>\<open>!!v\<close>: what \<^verbatim>\<open>if (v)\<close>, \<^verbatim>\<open>!v\<close>, \<^verbatim>\<open>a || b\<close> and \<^verbatim>\<open>filter((x) => x)\<close> test.\<close>

fun truthy :: "jsval \<Rightarrow> bool" where
  "truthy JUndefined = False"
| "truthy JNull = False"
| "truthy (JBool b) = b"
| "truthy (JNum n) = (n \<noteq> 0)"
| "truthy (JStr s) = (s \<noteq> [])"
| "truthy (JArr xs) = True"
| "truthy (JObj ob) = True"

text \<open>\<^verbatim>\<open>a || b\<close>\<close>

definition js_or :: "jsval \<Rightarrow> jsval \<Rightarrow> jsval" where
  "js_or a b = (if truthy a then a else b)"

text \<open>\<^verbatim>\<open>ob[k]\<close> on an object: a missing property reads as \<^verbatim>\<open>undefined\<close>.\<close>

definition get :: "obj \<Rightarrow> string \<Rightarrow> jsval" where
  "get ob k = (case map_of ob k of None \<Rightarrow> JUndefined | Some v \<Rightarrow> v)"

text \<open>
  \<^verbatim>\<open>v.k\<close> for a named (non-index) property \<open>k\<close> of a non-null value: arrays and
  primitives have none of the names the generator reads.
\<close>

fun property :: "jsval \<Rightarrow> string \<Rightarrow> jsval" where
  "property (JObj ob) k = get ob k"
| "property v k = JUndefined"

text \<open>
  \<^verbatim>\<open>_.isObject\<close> and \<^verbatim>\<open>_.isEmpty\<close> of lodash; arrays are objects too.
  \<^verbatim>\<open>_.isString\<close> is the test for \<open>JStr\<close>.
\<close>

fun isObject :: "jsval \<Rightarrow> bool" where
  "isObject (JObj ob) = True"
| "isObject (JArr xs) = True"
| "isObject v = False"

fun isEmpty :: "jsval \<Rightarrow> bool" where
  "isEmpty (JArr xs) = (xs = [])"
| "isEmpty (JStr s) = (s = [])"
| "isEmpty (JObj ob) = (ob = [])"
| "isEmpty v = True"

text \<open>The decimal name of an array index, as \<^verbatim>\<open>Object.keys\<close> lists it.\<close>

definition digit :: "nat \<Rightarrow> char" where
  "digit d = ''0123456789'' ! d"

function index_key :: "nat \<Rightarrow> string" where
  "index_key n = (if n < 10 then [digit n] else index_key (n div 10) @ [digit (n mod 10)])"
  by pat_completeness auto
termination
  by (relation "measure id") auto

declare index_key.simps [simp del]

fun indexed :: "nat \<Rightarrow> jsval list \<Rightarrow> obj" where
  "indexed i [] = []"
| "indexed i (x # xs) = (index_key i, x) # indexed (Suc i) xs"

subsection \<open>lodash's merge and defaultsDeep\<close>

text \<open>
  \<^verbatim>\<open>_.merge\<close> (the file's \<^verbatim>\<open>extend\<close>) is a library function. It is taken with its
  documented behaviour: source properties are merged into the destination key by key;
  a source value \<^verbatim>\<open>undefined\<close> is skipped; arrays and plain objects are merged
  recursively (arrays index by index), an array or object source replacing a destination
  of another kind by a copy; any other source value is assigned.
  \<open>merge_val ov sv\<close> is the value a key holds after source value \<open>sv\<close> is merged over
  destination value \<open>ov\<close>. Named properties that an object source would attach to a
  destination array are not part of the array's JSON form and are left out.
\<close>

fun merge_val :: "jsval \<Rightarrow> jsval \<Rightarrow> jsval"
  and merge_obj :: "obj \<Rightarrow> obj \<Rightarrow> obj"
  and merge_arr :: "jsval list \<Rightarrow> jsval list \<Rightarrow> jsval list" where
  "merge_val ov JUndefined = ov"
| "merge_val ov JNull = JNull"
| "merge_val ov (JBool b) = JBool b"
| "merge_val ov (JNum n) = JNum n"
| "merge_val ov (JStr s) = JStr s"
| "merge_val ov (JArr ss) =
     (case ov of JArr os \<Rightarrow> JArr (merge_arr os ss) | _ \<Rightarrow> JArr (merge_arr [] ss))"
| "merge_val ov (JObj so) =
     (case ov of
        JObj oo \<Rightarrow> JObj (merge_obj oo so)
      | JArr os \<Rightarrow> JArr os
      | _ \<Rightarrow> JObj (merge_obj [] so))"
| "merge_obj dst [] = dst"
| "merge_obj dst ((k, sv) # rest) =
     merge_obj (AList.update k (merge_val (get dst k) sv) dst) rest"
| "merge_arr os [] = os"
| "merge_arr [] (s # ss) = merge_val JUndefined s # merge_arr [] ss"
| "merge_arr (ov # os) (s # ss) = merge_val ov s # merge_arr os ss"

text \<open>
  \<^verbatim>\<open>_.defaultsDeep\<close>, with its documented behaviour: a destination property that is
  \<^verbatim>\<open>undefined\<close> takes the default; where destination and default are both objects
  (arrays included) the defaults are applied recursively, an array index by index; any
  other destination value, \<^verbatim>\<open>null\<close> included, is kept.
\<close>

fun defaults_val :: "jsval \<Rightarrow> jsval \<Rightarrow> jsval"
  and defaults_obj :: "obj \<Rightarrow> obj \<Rightarrow> obj"
  and defaults_arr :: "jsval list \<Rightarrow> jsval list \<Rightarrow> jsval list"
  and defaults_idx :: "obj \<Rightarrow> nat \<Rightarrow> jsval list \<Rightarrow> obj" where
  "defaults_val ov sv =
     (case sv of
        JObj so \<Rightarrow>
          (case ov of
             JUndefined \<Rightarrow> sv
           | JObj oo \<Rightarrow> JObj (defaults_obj oo so)
           | _ \<Rightarrow> ov)
      | JArr ss \<Rightarrow>
          (case ov of
             JUndefined \<Rightarrow> sv
           | JArr os \<Rightarrow> JArr (defaults_arr os ss)
           | JObj oo \<Rightarrow> JObj (defaults_idx oo 0 ss)
           | _ \<Rightarrow> ov)
      | _ \<Rightarrow> (case ov of JUndefined \<Rightarrow> sv | _ \<Rightarrow> ov))"
| "defaults_obj dst [] = dst"
| "defaults_obj dst ((k, sv) # rest) =
     defaults_obj (AList.update k (defaults_val (get dst k) sv) dst) rest"
| "defaults_arr os [] = os"
| "defaults_arr [] (s # ss) = s # defaults_arr [] ss"
| "defaults_arr (ov # os) (s # ss) = defaults_val ov s # defaults_arr os ss"
| "defaults_idx dst i [] = dst"
| "defaults_idx dst i (s # ss) =
     defaults_idx (AList.update (index_key i) (defaults_val (get dst (index_key i)) s) dst)
       (Suc i) ss"

declare defaults_val.simps [simp del]

text \<open>
  \<^verbatim>\<open>_.uniq\<close>: the first occurrence of every value is kept, values compared by
  SameValueZero. Two objects or arrays are the same value only if they are the same
  reference, which no two entries of a parsed or merged JSON array are.
\<close>

fun same_value_zero :: "jsval \<Rightarrow> jsval \<Rightarrow> bool" where
  "same_value_zero (JObj a) w = False"
| "same_value_zero (JArr a) w = False"
| "same_value_zero v w = (v = w)"

fun baseUniq :: "jsval list \<Rightarrow> jsval list \<Rightarrow> jsval list" where
  "baseUniq result [] = result"
| "baseUniq result (v # vs) =
     baseUniq (if list_ex (same_value_zero v) result then result else result @ [v]) vs"

definition uniq :: "jsval list \<Rightarrow> jsval list" where
  "uniq xs = baseUniq [] xs"

text \<open>\<^verbatim>\<open>a.concat(v)\<close> on an array \<open>a\<close>: an array argument is spread, any other appended.\<close>

fun concat_js :: "jsval list \<Rightarrow> jsval \<Rightarrow> jsval list" where
  "concat_js a (JArr xs) = a @ xs"
| "concat_js a v = a @ [v]"


section \<open>The generator's surroundings\<close>

text \<open>
  What can go wrong in the code modelled here: calling a method that a value does not
  have, or reading keys of \<^verbatim>\<open>null\<close> (\<open>TypeError\<close>); reading a manifest that is not
  JSON (\<open>SyntaxError\<close>). \<open>Unmodelled\<close> marks the one state outside the model: a
  \<^verbatim>\<open>props.keywords\<close> that is a non-empty string, which no phase of the generator
  produces.
\<close>

datatype error = TypeError | SyntaxError | Unmodelled

text \<open>The command-line options declared by the constructor.\<close>

record options =
  opt_travis :: bool
  opt_license :: bool
  opt_name :: "string option"
  opt_githubAccount :: "string option"
  opt_projectRoot :: string
  opt_readme :: "string option"

fun opt_js :: "string option \<Rightarrow> jsval" where
  "opt_js None = JUndefined"
| "opt_js (Some s) = JStr s"

text \<open>
  Library functions the generator calls and whose code is not part of it: lodash's
  \<^verbatim>\<open>kebabCase\<close> and \<^verbatim>\<open>deburr\<close> (both accept any value and return a string), the
  \<^verbatim>\<open>parse-author\<close> package (from a string to an object with some of the properties
  name, email and url) and Node's \<^verbatim>\<open>path.join\<close>. They are parameters of the model.
\<close>

record libs =
  kebabCase :: "jsval \<Rightarrow> string"
  deburr :: "jsval \<Rightarrow> string"
  parseAuthor :: "string \<Rightarrow> obj"
  path_join :: "string \<Rightarrow> string \<Rightarrow> string"

text \<open>
  The file system as the generator sees it: a path holds no file, a JSON object (the only
  JSON the generator reads is the manifest), or something else.
\<close>

datatype fs_entry = JsonFile obj | OtherFile

type_synonym filesys = "string \<Rightarrow> fs_entry option"

definition fs_exists :: "filesys \<Rightarrow> string \<Rightarrow> bool" where
  "fs_exists f p = (f p \<noteq> None)"

text \<open>\<^verbatim>\<open>this.fs.readJSON(path, defaults)\<close>: the defaults when there is no file.\<close>

definition readJSON :: "filesys \<Rightarrow> string \<Rightarrow> obj \<Rightarrow> error + obj" where
  "readJSON f p dflt =
     (case f p of
        None \<Rightarrow> Inr dflt
      | Some (JsonFile ob) \<Rightarrow> Inr ob
      | Some OtherFile \<Rightarrow> Inl SyntaxError)"

text \<open>What the generator does to the world, in the order it does it.\<close>

datatype effect =
    Relocate string
  | ConfigSet string string jsval
  | CopyTpl string string obj "string list"
  | Delete string
  | WriteJSON string obj
  | Move string string
  | Copy string string
  | SpawnCommandSync string "string list"
  | Log string

text \<open>
  The generator object: its options, the destination root, the file system, the State
  Store (\<^verbatim>\<open>this.config\<close>), \<^verbatim>\<open>this.pkg\<close>, \<^verbatim>\<open>this.props\<close>, and the effects so far.
\<close>

record generator =
  options :: options
  destinationRoot :: string
  fs :: filesys
  config :: "string \<Rightarrow> obj"
  pkg :: obj
  props :: obj
  effects :: "effect list"

text \<open>\<^verbatim>\<open>this.destinationPath(p)\<close>: the path \<open>p\<close> under the destination root.\<close>

definition destinationPath :: "generator \<Rightarrow> string \<Rightarrow> string" where
  "destinationPath g p = destinationRoot g @ ''/'' @ p"

text \<open>
  Modelled from the spec: the generator framework's \<^verbatim>\<open>destinationRoot(newRoot)\<close> and
  \<^verbatim>\<open>config\<close> are not under src/. The State Store is durable key/value storage that
  belongs to a destination root; after a relocation \<^verbatim>\<open>this.config\<close> is the store of
  the new root.
\<close>

definition relocate :: "string \<Rightarrow> generator \<Rightarrow> generator" where
  "relocate newRoot g = g\<lparr>destinationRoot := newRoot, effects := effects g @ [Relocate newRoot]\<rparr>"

definition config_set :: "string \<Rightarrow> jsval \<Rightarrow> generator \<Rightarrow> generator" where
  "config_set k v g =
     g\<lparr>config := (config g)(destinationRoot g := AList.update k v (config g (destinationRoot g))),
       effects := effects g @ [ConfigSet (destinationRoot g) k v]\<rparr>"

definition config_get :: "string \<Rightarrow> generator \<Rightarrow> jsval" where
  "config_get k g = get (config g (destinationRoot g)) k"

definition ExpressJS :: string where "ExpressJS = ''ExpressJS''"
definition HapiJS :: string where "HapiJS = ''HapiJS''"
definition KoaJS :: string where "KoaJS = ''KoaJS''"

definition singleQuote :: string where "singleQuote = [CHR 0x27]"
definition doubleQuote :: string where "doubleQuote = [CHR 0x22]"

section \<open>initializing\<close>

text \<open>
  \<^verbatim>\<open>if (this.pkg.keywords) this.pkg.keywords = this.pkg.keywords.filter((x) => x)\<close>:
  only an array has the method.
\<close>

definition filter_keywords :: "obj \<Rightarrow> error + obj" where
  "filter_keywords p =
     (if truthy (get p ''keywords'')
      then (case get p ''keywords'' of
              JArr xs \<Rightarrow> Inr (AList.update ''keywords'' (JArr (filter truthy xs)) p)
            | _ \<Rightarrow> Inl TypeError)
      else Inr p)"

text \<open>Successive assignments \<^verbatim>\<open>ob.k = v\<close>.\<close>

definition assign :: "obj \<Rightarrow> (string \<times> jsval) list \<Rightarrow> obj" where
  "assign ob kvs = fold (\<lambda>(k, v). AList.update k v) kvs ob"

text \<open>
  \<^verbatim>\<open>this.props\<close> as \<^verbatim>\<open>initializing\<close> presets it from the manifest \<open>p\<close>: the four
  fields of the manifest, and then, for an author that is an object, its three parts,
  \<^verbatim>\<open>createDirectory = false\<close> and what the files of the destination tell; for an
  author that is a string, the three parts as \<^verbatim>\<open>parseAuthor\<close> gives them.
\<close>

definition initial_props :: "libs \<Rightarrow> generator \<Rightarrow> obj \<Rightarrow> obj" where
  "initial_props L g p =
     (let props0 = [(''name'', get p ''name''),
                    (''description'', get p ''description''),
                    (''version'', get p ''version''),
                    (''homepage'', get p ''homepage'')];
          author = get p ''author''
      in if isObject author
         then assign props0
           [(''authorName'', property author ''name''),
            (''authorEmail'', property author ''email''),
            (''authorUrl'', property author ''url''),
            (''createDirectory'', JBool False),
            (''serverType'',
               JStr (if fs_exists (fs g) (destinationPath g ''src/server/express-server.js'')
                     then ExpressJS
                     else if fs_exists (fs g) (destinationPath g ''src/server/koa-server.js'')
                     then KoaJS else HapiJS)),
            (''pwa'', JBool (fs_exists (fs g) (destinationPath g ''client/sw-registration.js''))),
            (''autoSsr'', JBool (fs_exists (fs g) (destinationPath g ''server/plugins/autossr.js''))),
            (''quoteType'',
               JStr (if fs_exists (fs g) (destinationPath g ''.eslintrc'')
                     then singleQuote else doubleQuote))]
         else (case author of
                 JStr s \<Rightarrow>
                   (let info = parseAuthor L s
                    in assign props0
                         [(''authorName'', get info ''name''),
                          (''authorEmail'', get info ''email''),
                          (''authorUrl'', get info ''url'')])
               | _ \<Rightarrow> props0))"

definition initializing :: "libs \<Rightarrow> generator \<Rightarrow> error + generator" where
  "initializing L g =
     (case readJSON (fs g) (destinationPath g ''package.json'') [] of
        Inl e \<Rightarrow> Inl e
      | Inr p0 \<Rightarrow>
          (case filter_keywords p0 of
             Inl e \<Rightarrow> Inl e
           | Inr p \<Rightarrow> Inr (g\<lparr>pkg := p, props := initial_props L g p\<rparr>)))"

section \<open>prompting.askFor\<close>

text \<open>
  \<^verbatim>\<open>if (this.pkg.name || this.options.name)
    this.props.name = this.pkg.name || _.kebabCase(this.options.name)\<close>
\<close>

definition resolve_name :: "libs \<Rightarrow> generator \<Rightarrow> generator" where
  "resolve_name L g =
     (if truthy (get (pkg g) ''name'') \<or> truthy (opt_js (opt_name (options g)))
      then g\<lparr>props :=
               AList.update ''name''
                 (js_or (get (pkg g) ''name'') (JStr (kebabCase L (opt_js (opt_name (options g))))))
                 (props g)\<rparr>
      else g)"

text \<open>
  The keywords prompt's filter, \<^verbatim>\<open>words.split(/\s*,\s*/g).filter((x) => x)\<close>.
  \<open>white_space\<close> lists the characters of the class \<^verbatim>\<open>\s\<close>, each as its UTF-8
  bytes: space, tab, line feed, vertical tab, form feed, carriage return, U+00A0, U+1680,
  U+2000 to U+200A, U+2028, U+2029, U+202F, U+205F, U+3000 and U+FEFF. \<open>strip_space\<close>
  takes one of them off the head of a string and \<open>skip_spaces\<close> all of them.
  \<open>match_sep s\<close> is the rest of \<open>s\<close> after a match of the separator at its head, if
  there is one: the whitespace run is greedy and a comma must follow it. \<open>split_sep\<close>
  walks the string as \<^verbatim>\<open>String.prototype.split\<close> does, trying a match at every
  position; \<open>cur\<close> holds the current piece, reversed.
\<close>

definition white_space :: "string list" where
  "white_space =
     [[CHR 0x20], [CHR 0x09], [CHR 0x0A], [CHR 0x0B], [CHR 0x0C], [CHR 0x0D],
      [CHR 0xC2, CHR 0xA0],
      [CHR 0xE1, CHR 0x9A, CHR 0x80],
      [CHR 0xE2, CHR 0x80, CHR 0x80], [CHR 0xE2, CHR 0x80, CHR 0x81],
      [CHR 0xE2, CHR 0x80, CHR 0x82], [CHR 0xE2, CHR 0x80, CHR 0x83],
      [CHR 0xE2, CHR 0x80, CHR 0x84], [CHR 0xE2, CHR 0x80, CHR 0x85],
      [CHR 0xE2, CHR 0x80, CHR 0x86], [CHR 0xE2, CHR 0x80, CHR 0x87],
      [CHR 0xE2, CHR 0x80, CHR 0x88], [CHR 0xE2, CHR 0x80, CHR 0x89],
      [CHR 0xE2, CHR 0x80, CHR 0x8A],
      [CHR 0xE2, CHR 0x80, CHR 0xA8], [CHR 0xE2, CHR 0x80, CHR 0xA9],
      [CHR 0xE2, CHR 0x80, CHR 0xAF],
      [CHR 0xE2, CHR 0x81, CHR 0x9F],
      [CHR 0xE3, CHR 0x80, CHR 0x80],
      [CHR 0xEF, CHR 0xBB, CHR 0xBF]]"

fun strip_space :: "string list \<Rightarrow> string \<Rightarrow> string option" where
  "strip_space [] s = None"
| "strip_space (w # ws) s =
     (if w \<noteq> [] \<and> take (length w) s = w then Some (drop (length w) s)
      else strip_space ws s)"

function skip_spaces :: "string \<Rightarrow> string" where
  "skip_spaces s =
     (case strip_space white_space s of Some r \<Rightarrow> skip_spaces r | None \<Rightarrow> s)"
  by pat_completeness auto
termination
proof (relation "measure length")
  show "wf (measure length)"
    by simp
next
  fix s r :: string
  assume m: "strip_space white_space s = Some r"
  have "strip_space ws t = Some u \<Longrightarrow> length u < length t" for ws t u
  proof (induction ws)
    case Nil
    then show ?case by simp
  next
    case (Cons w ws)
    show ?case
    proof (cases "w \<noteq> [] \<and> take (length w) t = w")
      case True
      then have "length (take (length w) t) = length w" and pos: "0 < length w"
        by simp_all
      then have le: "length w \<le> length t"
        by simp
      from pos le have "length t - length w < length t"
        by arith
      with True Cons.prems show ?thesis by auto
    next
      case False
      with Cons show ?thesis by auto
    qed
  qed
  from this [OF m] show "(r, s) \<in> measure length"
    by simp
qed

declare skip_spaces.simps [simp del]

definition match_sep :: "string \<Rightarrow> string option" where
  "match_sep s =
     (case skip_spaces s of
        [] \<Rightarrow> None
      | c # r \<Rightarrow> if c = CHR '','' then Some (skip_spaces r) else None)"

function split_sep :: "string \<Rightarrow> string \<Rightarrow> string list" where
  "split_sep cur s =
     (case match_sep s of
        Some r \<Rightarrow> rev cur # split_sep [] r
      | None \<Rightarrow> (case s of [] \<Rightarrow> [rev cur] | c # cs \<Rightarrow> split_sep (c # cur) cs))"
  by pat_completeness auto
termination
proof (relation "measure (\<lambda>(cur, s). length s)")
  show "wf (measure (\<lambda>(cur, s). length s))"
    by simp
next
  fix cur s :: string and r
  assume m: "match_sep s = Some r"
  have le: "length (skip_spaces t) \<le> length t" for t
  proof (induction t rule: skip_spaces.induct)
    case (1 t)
    show ?case
    proof (cases "strip_space white_space t")
      case None
      then show ?thesis by (simp add: skip_spaces.simps [of t])
    next
      case (Some u)
      have "strip_space ws t = Some u \<Longrightarrow> length u \<le> length t" for ws
        by (induction ws) (auto split: if_splits)
      from this [OF Some] "1.IH" [OF Some] Some show ?thesis
        by (simp add: skip_spaces.simps [of t])
    qed
  qed
  from m obtain r' where d: "skip_spaces s = CHR '','' # r'" and r: "r = skip_spaces r'"
    by (auto simp: match_sep_def split: list.splits if_splits)
  have "length r \<le> length r'"
    using le [of r'] r by simp
  moreover have "Suc (length r') \<le> length s"
    using le [of s] d by simp
  ultimately show "(([], r), (cur, s)) \<in> measure (\<lambda>(cur, s). length s)"
    by simp
next
  fix cur s :: string and c cs
  assume "s = c # cs"
  then show "((c # cur, cs), (cur, s)) \<in> measure (\<lambda>(cur, s). length s)"
    by simp
qed

declare split_sep.simps [simp del]

definition keywords_filter :: "string \<Rightarrow> jsval" where
  "keywords_filter words = JArr (map JStr (filter (\<lambda>x. x \<noteq> []) (split_sep [] words)))"

text \<open>
  What the user enters, question by question, typed as the question's kind gives it: text
  for an input question, one of the listed choices for a list question, yes or no for a
  confirmation.
\<close>

datatype framework = Hapi | Express | Koa

fun framework_name :: "framework \<Rightarrow> string" where
  "framework_name Hapi = HapiJS"
| "framework_name Express = ExpressJS"
| "framework_name Koa = KoaJS"

datatype quote = Double | Single

fun quote_str :: "quote \<Rightarrow> string" where
  "quote_str Double = doubleQuote"
| "quote_str Single = singleQuote"

record replies =
  reply_name :: string
  reply_description :: string
  reply_homepage :: string
  reply_serverType :: framework
  reply_authorName :: string
  reply_authorEmail :: string
  reply_authorUrl :: string
  reply_keywords :: string
  reply_pwa :: bool
  reply_autoSsr :: bool
  reply_quoteType :: quote
  reply_createDirectory :: bool

text \<open>
  The questions in their order: name, the \<^verbatim>\<open>when\<close> condition, and the answer recorded
  if the question is asked.
\<close>

definition prompts :: "replies \<Rightarrow> generator \<Rightarrow> (string \<times> bool \<times> jsval) list" where
  "prompts r g =
     [(''name'', \<not> truthy (get (props g) ''name''), JStr (reply_name r)),
      (''description'', \<not> truthy (get (props g) ''description''), JStr (reply_description r)),
      (''homepage'', \<not> truthy (get (props g) ''homepage''), JStr (reply_homepage r)),
      (''serverType'', \<not> truthy (get (props g) ''serverType''),
         JStr (framework_name (reply_serverType r))),
      (''authorName'', \<not> truthy (get (props g) ''authorName''), JStr (reply_authorName r)),
      (''authorEmail'', \<not> truthy (get (props g) ''authorEmail''), JStr (reply_authorEmail r)),
      (''authorUrl'', \<not> truthy (get (props g) ''authorUrl''), JStr (reply_authorUrl r)),
      (''keywords'', isEmpty (get (pkg g) ''keywords''), keywords_filter (reply_keywords r)),
      (''pwa'', get (props g) ''pwa'' = JUndefined, JBool (reply_pwa r)),
      (''autoSsr'', get (props g) ''autoSsr'' = JUndefined, JBool (reply_autoSsr r)),
      (''quoteType'', get (props g) ''quoteType'' = JUndefined, JStr (quote_str (reply_quoteType r))),
      (''createDirectory'', get (props g) ''createDirectory'' = JUndefined,
         JBool (reply_createDirectory r))]"

text \<open>
  Modelled from the spec: the interactive prompt renderer behind \<^verbatim>\<open>this.prompt\<close> is
  not under src/. It asks the questions whose \<^verbatim>\<open>when\<close> holds, in order, and answers
  with an object that has a property for each question asked and for no other.
\<close>

definition prompt :: "(string \<times> bool \<times> jsval) list \<Rightarrow> obj" where
  "prompt qs = map (\<lambda>(n, w, a). (n, a)) (filter (\<lambda>(n, w, a). w) qs)"

text \<open>The names of the questions \<^verbatim>\<open>askFor\<close> asks.\<close>

definition asked :: "libs \<Rightarrow> replies \<Rightarrow> generator \<Rightarrow> string list" where
  "asked L r g = map fst (prompt (prompts r (resolve_name L g)))"

text \<open>The generator after \<^verbatim>\<open>this.props = extend(this.props, props)\<close>.\<close>

definition merge_answers :: "libs \<Rightarrow> replies \<Rightarrow> generator \<Rightarrow> generator" where
  "merge_answers L r g =
     (let g1 = resolve_name L g
      in g1\<lparr>props := merge_obj (props g1) (prompt (prompts r g1))\<rparr>)"

text \<open>\<^verbatim>\<open>this.destinationPath() + '/' + _.kebabCase(_.deburr(this.props.name))\<close>\<close>

definition newRoot :: "libs \<Rightarrow> generator \<Rightarrow> string" where
  "newRoot L g =
     destinationRoot g @ ''/'' @ kebabCase L (JStr (deburr L (get (props g) ''name'')))"

definition askFor :: "libs \<Rightarrow> replies \<Rightarrow> generator \<Rightarrow> generator" where
  "askFor L r g =
     (let g2 = merge_answers L r g;
          g3 = (if truthy (get (props g2) ''createDirectory'')
                then relocate (newRoot L g2) g2 else g2)
      in config_set ''serverType'' (get (props g3) ''serverType'') g3)"

section \<open>writing\<close>

definition ignoreArray :: "bool \<Rightarrow> bool \<Rightarrow> string list" where
  "ignoreArray isHapi isExpress =
     (if isHapi then [''**/src/server/express-server.js'', ''**/src/server/koa-server.js'']
      else if isExpress then [''**/src/server/koa-server.js'']
      else [''**/src/server/express-server.js''])"

definition rootConfigsToCopy :: "bool \<Rightarrow> string list" where
  "rootConfigsToCopy isSingleQuote =
     [''gulpfile.js'', ''config'', ''test''] @ (if isSingleQuote then [''.eslintrc''] else [])"

text \<open>\<^verbatim>\<open>[...].forEach((x) => { currentPkg[x] = currentPkg[x] || undefined; })\<close>\<close>

definition scalar_fields :: "string list" where
  "scalar_fields = [''name'', ''version'', ''description'', ''homepage'', ''main'', ''license'']"

definition clear_falsy :: "obj \<Rightarrow> obj" where
  "clear_falsy currentPkg =
     fold (\<lambda>x c. AList.update x (js_or (get c x) JUndefined) c) scalar_fields currentPkg"

text \<open>The generator's defaults, the second argument of \<^verbatim>\<open>_.defaultsDeep\<close>.\<close>

definition backslash :: char where
  "backslash = CHR 0x5C"

definition default_manifest :: "libs \<Rightarrow> generator \<Rightarrow> obj" where
  "default_manifest L g =
     [(''name'', JStr (kebabCase L (get (props g) ''name''))),
      (''version'', JStr ''0.0.1''),
      (''description'', get (props g) ''description''),
      (''homepage'', get (props g) ''homepage''),
      (''author'', JObj [(''name'', get (props g) ''authorName''),
                         (''email'', get (props g) ''authorEmail''),
                         (''url'', get (props g) ''authorUrl'')]),
      (''files'', JArr [JStr (opt_projectRoot (options g))]),
      (''main'', JStr (map (\<lambda>c. if c = backslash then CHR ''/'' else c)
                        (path_join L (opt_projectRoot (options g)) ''index.js''))),
      (''keywords'', JArr [])]"

definition updatePkg :: "libs \<Rightarrow> generator \<Rightarrow> obj \<Rightarrow> obj" where
  "updatePkg L g currentPkg = defaults_obj (clear_falsy currentPkg) (default_manifest L g)"

text \<open>
  \<^verbatim>\<open>if (this.props.keywords)
    pkg.keywords = _.uniq(this.props.keywords.concat(pkg.keywords)).filter((x) => x)\<close>
\<close>

definition combine_keywords :: "jsval \<Rightarrow> obj \<Rightarrow> error + obj" where
  "combine_keywords kw p =
     (if truthy kw
      then (case kw of
              JArr ks \<Rightarrow>
                Inr (AList.update ''keywords''
                       (JArr (filter truthy (uniq (concat_js ks (get p ''keywords''))))) p)
            | JStr s \<Rightarrow> Inl Unmodelled
            | _ \<Rightarrow> Inl TypeError)
      else Inr p)"

text \<open>
  \<^verbatim>\<open>if (typeof pkg[dep] === "object")
    pkg[dep] = _.pick(pkg[dep], Object.keys(pkg[dep]).sort())\<close>.
  \<^verbatim>\<open>typeof\<close> is \<^verbatim>\<open>"object"\<close> for an object, for an array and for \<^verbatim>\<open>null\<close>;
  \<^verbatim>\<open>Object.keys(null)\<close> throws. The default \<^verbatim>\<open>sort\<close> orders the keys as strings,
  and \<^verbatim>\<open>_.pick\<close> sets them in that order on a new object. The properties of that
  object are then in JavaScript's own order, \<open>own_property_order\<close>: first the keys that
  are array indices (canonical decimal numbers up to 4294967294), in ascending numeric
  order, then the other keys in the order they were set. Picking all index names of an
  array gives the object with these names.
\<close>

definition is_digit :: "char \<Rightarrow> bool" where
  "is_digit c = (c \<in> set ''0123456789'')"

definition is_array_index :: "string \<Rightarrow> bool" where
  "is_array_index k =
     (k \<noteq> [] \<and> list_all is_digit k \<and> (k = ''0'' \<or> hd k \<noteq> CHR ''0'')
      \<and> (length k < 10 \<or> (length k = 10 \<and> k \<le> ''4294967294'')))"

definition own_property_order :: "string list \<Rightarrow> string list" where
  "own_property_order ks =
     sort_key length (sort (filter is_array_index ks))
     @ filter (\<lambda>k. \<not> is_array_index k) ks"

definition pick :: "obj \<Rightarrow> string list \<Rightarrow> obj" where
  "pick ob ks = map (\<lambda>k. (k, get ob k)) (own_property_order ks)"

definition sortDep :: "string \<Rightarrow> obj \<Rightarrow> error + obj" where
  "sortDep dep p =
     (case get p dep of
        JObj d \<Rightarrow> Inr (AList.update dep (JObj (pick d (sort (map fst d)))) p)
      | JArr xs \<Rightarrow> Inr (AList.update dep (JObj (indexed 0 xs)) p)
      | JNull \<Rightarrow> Inl TypeError
      | _ \<Rightarrow> Inr p)"

fun sortDeps :: "string list \<Rightarrow> obj \<Rightarrow> error + obj" where
  "sortDeps [] p = Inr p"
| "sortDeps (dep # deps) p =
     (case sortDep dep p of Inl e \<Rightarrow> Inl e | Inr p' \<Rightarrow> sortDeps deps p')"

definition dependency_groups :: "string list" where
  "dependency_groups =
     [''dependencies'', ''devDependencies'', ''peerDependencies'', ''optionalDependencies'']"

text \<open>
  The manifest passed to \<^verbatim>\<open>writeJSON\<close>, from the rendered template manifest
  \<open>defaultPkg\<close> and the manifest \<open>currentPkg\<close> read again from the destination.
\<close>

definition manifest :: "libs \<Rightarrow> generator \<Rightarrow> obj \<Rightarrow> obj \<Rightarrow> error + obj" where
  "manifest L g defaultPkg currentPkg =
     (case combine_keywords (get (props g) ''keywords'')
             (merge_obj (merge_obj [] defaultPkg) (updatePkg L g currentPkg)) of
        Inl e \<Rightarrow> Inl e
      | Inr p \<Rightarrow> sortDeps dependency_groups p)"

text \<open>
  The file operations of the writing phase once the manifest \<open>p\<close> is computed. A
  \<open>CopyTpl\<close> names the template path, the destination path, the template context and
  the glob patterns to ignore.
\<close>

definition write_ops :: "generator \<Rightarrow> obj \<Rightarrow> effect list" where
  "write_ops g p =
     (let isHapi = (config_get ''serverType'' g = JStr HapiJS);
          isExpress = (config_get ''serverType'' g = JStr ExpressJS);
          isPWA = get (props g) ''pwa'';
          isAutoSSR = get (props g) ''autoSsr'';
          isSingleQuote = (get (props g) ''quoteType'' = JStr singleQuote)
      in [CopyTpl ''_package.json'' (destinationPath g ''_package.json'')
            [(''isHapi'', JBool isHapi), (''isExpress'', JBool isExpress),
             (''isPWA'', isPWA), (''isAutoSSR'', isAutoSSR)] [],
          Delete (destinationPath g ''_package.json''),
          WriteJSON (destinationPath g ''package.json'') p]
         @ map (\<lambda>f. CopyTpl f (destinationPath g f) [(''isSingleQuote'', JBool isSingleQuote)] [])
             (rootConfigsToCopy isSingleQuote)
         @ [CopyTpl ''src/server'' (destinationPath g ''src/server'')
              [(''isHapi'', JBool isHapi), (''isExpress'', JBool isExpress)]
              (ignoreArray isHapi isExpress),
            CopyTpl ''src/client'' (destinationPath g ''src/client'') [(''pwa'', isPWA)]
              [''**/client/images/**'',
               if \<not> truthy isPWA then ''**/client/sw-registration.js'' else []]]
         @ map (\<lambda>d. Move (destinationPath g (d @ ''/babelrc'')) (destinationPath g (d @ ''/.babelrc'')))
             [''src/client'', ''src/server'', ''test/client'', ''test/server'']
         @ map (\<lambda>d. Move (destinationPath g (d @ ''/eslintrc'')) (destinationPath g (d @ ''/.eslintrc'')))
             [''test/client'', ''test/server'']
         @ [Copy ''src/client/images'' (destinationPath g ''src/client/images'')])"

text \<open>
  The writing phase. The template renderer is external: \<open>defaultPkg\<close> is the manifest it
  renders from \<^verbatim>\<open>_package.json\<close>, read back by the generator.
\<close>

definition writing :: "libs \<Rightarrow> obj \<Rightarrow> generator \<Rightarrow> error + generator" where
  "writing L defaultPkg g =
     (case readJSON (fs g) (destinationPath g ''package.json'') [] of
        Inl e \<Rightarrow> Inl e
      | Inr currentPkg \<Rightarrow>
          (case manifest L g defaultPkg currentPkg of
             Inl e \<Rightarrow> Inl e
           | Inr p \<Rightarrow> Inr (g\<lparr>effects := effects g @ write_ops g p\<rparr>)))"

section \<open>end\<close>

definition chdir :: "libs \<Rightarrow> generator \<Rightarrow> string" where
  "chdir L g =
     (if truthy (get (props g) ''createDirectory'')
      then singleQuote @ ''cd '' @ kebabCase L (JStr (deburr L (get (props g) ''name'')))
             @ singleQuote @ '' then ''
      else [])"

definition end_phase :: "libs \<Rightarrow> generator \<Rightarrow> generator" where
  "end_phase L g =
     g\<lparr>effects := effects g
        @ (if get (props g) ''quoteType'' = JStr singleQuote
           then [SpawnCommandSync ''node_modules/.bin/eslint''
                   [''--fix'', ''src'', ''test'', ''config'', ''--ext'', ''.js,.jsx'']]
           else [])
        @ [Log ([CHR 0x0A] @ ''Your new Electrode application is ready!'' @ [CHR 0x0A, CHR 0x0A]
                @ ''Type '' @ chdir L g @ singleQuote @ ''gulp dev'' @ singleQuote
                @ '' to start the server.'' @ [CHR 0x0A])]\<rparr>"

section \<open>A run of the generator\<close>

text \<open>
  The phases in their order. Between the prompts and the writing phase the composed
  sub-generators may change files of the destination: \<open>others\<close> is that change.
\<close>

definition run ::
  "libs \<Rightarrow> replies \<Rightarrow> (filesys \<Rightarrow> filesys) \<Rightarrow> obj \<Rightarrow> generator \<Rightarrow> error + generator" where
  "run L r others defaultPkg g =
     (case initializing L g of
        Inl e \<Rightarrow> Inl e
      | Inr g1 \<Rightarrow>
          (let g2 = askFor L r g1
           in case writing L defaultPkg (g2\<lparr>fs := others (fs g2)\<rparr>) of
                Inl e \<Rightarrow> Inl e
              | Inr g3 \<Rightarrow> Inr (end_phase L g3)))"

section \<open>Template selection by glob patterns\<close>

text \<open>
  Modelled from the spec: the template copier and its glob engine are not under src/.
  A pattern \<^verbatim>\<open>**/rest\<close> with a literal \<open>rest\<close>, the only kind the server entry rules
  use, matches the paths that are \<open>rest\<close> or end with \<open>/rest\<close>; a copy leaves out the
  files that match one of the ignore patterns.
\<close>

definition ends_with :: "string \<Rightarrow> string \<Rightarrow> bool" where
  "ends_with s p = (length s \<le> length p \<and> drop (length p - length s) p = s)"

definition glob_match :: "string \<Rightarrow> string \<Rightarrow> bool" where
  "glob_match pat p =
     (if take 3 pat = ''**/'' then p = drop 3 pat \<or> ends_with (''/'' @ drop 3 pat) p
      else pat = p)"

definition copied :: "string list \<Rightarrow> string list \<Rightarrow> string list" where
  "copied ignore files = filter (\<lambda>p. \<not> list_ex (\<lambda>pat. glob_match pat p) ignore) files"

text \<open>
  The server entry file of a framework in the template tree rooted at \<open>t\<close>. The code
  names one for ExpressJS and one for KoaJS and none for HapiJS.
\<close>

fun entry_file :: "string \<Rightarrow> framework \<Rightarrow> string option" where
  "entry_file t Express = Some (t @ ''/src/server/express-server.js'')"
| "entry_file t Koa = Some (t @ ''/src/server/koa-server.js'')"
| "entry_file t Hapi = None"

section \<open>Simple instances of the library functions\<close>

text \<open>
  Instances of the library parameters for running the model on examples. \<open>simple_kebab\<close>
  lower-cases the runs of ASCII letters and digits of a string and joins them with
  hyphens, which is what \<^verbatim>\<open>_.kebabCase\<close> returns on strings without case or
  letter/digit changes inside a word; \<open>simple_deburr\<close> returns a string as it is, as
  \<^verbatim>\<open>_.deburr\<close> does on ASCII; \<open>simple_author\<close> takes a string without angle brackets
  and parentheses as a name; \<open>simple_join\<close> joins two plain relative segments.
\<close>

definition is_alnum :: "char \<Rightarrow> bool" where
  "is_alnum c = (c \<in> set ''abcdefghijklmnopqrstuvwxyzABCDEFGHIJKLMNOPQRSTUVWXYZ0123456789'')"

definition lower :: "char \<Rightarrow> char" where
  "lower c =
     (case map_of (zip ''ABCDEFGHIJKLMNOPQRSTUVWXYZ'' ''abcdefghijklmnopqrstuvwxyz'') c of
        None \<Rightarrow> c
      | Some l \<Rightarrow> l)"

fun ascii_words :: "string \<Rightarrow> string \<Rightarrow> string list" where
  "ascii_words cur [] = (if cur = [] then [] else [rev cur])"
| "ascii_words cur (c # cs) =
     (if is_alnum c then ascii_words (c # cur) cs
      else (if cur = [] then [] else [rev cur]) @ ascii_words [] cs)"

fun join_hyphen :: "string list \<Rightarrow> string" where
  "join_hyphen [] = []"
| "join_hyphen [w] = w"
| "join_hyphen (w # ws) = w @ ''-'' @ join_hyphen ws"

fun simple_kebab :: "jsval \<Rightarrow> string" where
  "simple_kebab (JStr s) = join_hyphen (map (map lower) (ascii_words [] s))"
| "simple_kebab v = []"

fun simple_deburr :: "jsval \<Rightarrow> string" where
  "simple_deburr (JStr s) = s"
| "simple_deburr v = []"

definition simple_author :: "string \<Rightarrow> obj" where
  "simple_author s = (if s = [] then [] else [(''name'', JStr s)])"

definition simple_join :: "string \<Rightarrow> string \<Rightarrow> string" where
  "simple_join a b = a @ ''/'' @ b"

definition simple_libs :: libs where
  "simple_libs =
     \<lparr>kebabCase = simple_kebab, deburr = simple_deburr,
      parseAuthor = simple_author, path_join = simple_join\<rparr>"

section \<open>Observing effects\<close>

fun copies_template :: "string \<Rightarrow> effect \<Rightarrow> bool" where
  "copies_template s (CopyTpl s' d c i) = (s' = s)"
| "copies_template s e = False"

fun is_spawn :: "effect \<Rightarrow> bool" where
  "is_spawn (SpawnCommandSync c a) = True"
| "is_spawn e = False"

fun is_write :: "effect \<Rightarrow> bool" where
  "is_write (WriteJSON p ob) = True"
| "is_write e = False"

section \<open>Example inputs\<close>

definition example_options :: options where
  "example_options =
     \<lparr>opt_travis = True, opt_license = True, opt_name = Some ''cli-app'',
      opt_githubAccount = None, opt_projectRoot = ''server'', opt_readme = None\<rparr>"

definition example_replies :: replies where
  "example_replies =
     \<lparr>reply_name = ''My Cool App'', reply_description = ''a demo'',
      reply_homepage = ''http://x.org'', reply_serverType = Koa, reply_authorName = ''Jane'',
      reply_authorEmail = ''jane@x.org'', reply_authorUrl = ''http://jane.x.org'',
      reply_keywords = ''ui, cache, cache'', reply_pwa = False, reply_autoSsr = False,
      reply_quoteType = Single, reply_createDirectory = True\<rparr>"

text \<open>A generator about to start in \<^verbatim>\<open>/work\<close>, on a given file system.\<close>

definition generator_at :: "filesys \<Rightarrow> generator" where
  "generator_at f =
     \<lparr>options = example_options, destinationRoot = ''/work'', fs = f,
      config = (\<lambda>root. []), pkg = [], props = [], effects = []\<rparr>"

text \<open>A generator after \<^verbatim>\<open>initializing\<close> whose manifest has a name.\<close>

definition named_generator :: generator where
  "named_generator =
     (generator_at Map.empty)
       \<lparr>pkg := [(''name'', JStr ''manifest-app'')], props := [(''name'', JStr ''manifest-app'')]\<rparr>"

text \<open>The same with no manifest name: only the command line gives one.\<close>

definition unnamed_generator :: generator where
  "unnamed_generator = generator_at Map.empty"

text \<open>
  Two destinations that hold the ExpressJS entry file: the manifest of the first has a
  free-text author, the manifest of the second a structured one.
\<close>

definition string_author_manifest :: obj where
  "string_author_manifest = [(''name'', JStr ''demo''), (''author'', JStr ''Jane Doe'')]"

definition string_author_fs :: filesys where
  "string_author_fs =
     [''/work/package.json'' \<mapsto> JsonFile string_author_manifest,
      ''/work/src/server/express-server.js'' \<mapsto> OtherFile]"

definition structured_author_manifest :: obj where
  "structured_author_manifest =
     [(''name'', JStr ''demo''), (''author'', JObj [(''name'', JStr ''Jane Doe'')])]"

definition structured_author_fs :: filesys where
  "structured_author_fs =
     [''/work/package.json'' \<mapsto> JsonFile structured_author_manifest,
      ''/work/src/server/express-server.js'' \<mapsto> OtherFile]"

text \<open>A generator after the prompts, with single quotes chosen, about to write.\<close>

definition single_quote_generator :: generator where
  "single_quote_generator =
     (generator_at Map.empty)
       \<lparr>props := [(''name'', JStr ''demo''), (''quoteType'', JStr singleQuote)]\<rparr>"

text \<open>
  A generator about to start in an empty \<^verbatim>\<open>/work\<close> with no name on the command line.
\<close>

definition plain_generator :: generator where
  "plain_generator = (generator_at Map.empty)\<lparr>options := example_options\<lparr>opt_name := None\<rparr>\<rparr>"

text \<open>
  A destination whose manifest has a name, a description, files and main, a generator
  with other values prompted, and a template manifest with values of its own.
\<close>

definition described_manifest :: obj where
  "described_manifest =
     [(''name'', JStr ''kept-name''), (''description'', JStr ''kept description''),
      (''files'', JArr [JStr ''lib'']), (''main'', JStr ''lib/main.js'')]"

definition described_generator :: generator where
  "described_generator =
     (generator_at [''/work/package.json'' \<mapsto> JsonFile described_manifest])
       \<lparr>props := [(''name'', JStr ''other''), (''description'', JStr ''a prompted description'')]\<rparr>"

definition template_manifest :: obj where
  "template_manifest =
     [(''name'', JStr ''template''), (''description'', JStr ''template description''),
      (''dependencies'', JObj [(''zeta'', JStr ''1.0.0''), (''alpha'', JStr ''2.0.0''),
                               (''mu'', JStr ''3.0.0'')])]"

text \<open>
  A manifest with the keywords web and ui, and a generator that holds the answer
  \<open>ui, cache, cache\<close> of the keywords question.
\<close>

definition keywords_manifest :: obj where
  "keywords_manifest = [(''keywords'', JArr [JStr ''web'', JStr ''ui''])]"

definition keywords_generator :: generator where
  "keywords_generator =
     (generator_at [''/work/package.json'' \<mapsto> JsonFile keywords_manifest])
       \<lparr>props := [(''name'', JStr ''demo''), (''keywords'', keywords_filter ''ui, cache, cache'')]\<rparr>"

text \<open>
  Destinations with a structured author: one whose keywords repeat an entry and hold an
  empty one, one whose dependencies are \<^verbatim>\<open>null\<close>.
\<close>

definition repeated_keywords_fs :: filesys where
  "repeated_keywords_fs =
     [''/work/package.json'' \<mapsto>
        JsonFile [(''name'', JStr ''demo''), (''author'', JObj [(''name'', JStr ''Jane Doe'')]),
                  (''keywords'', JArr [JStr ''ui'', JStr ''ui'', JStr []])]]"

definition null_dependencies_fs :: filesys where
  "null_dependencies_fs =
     [''/work/package.json'' \<mapsto>
        JsonFile [(''name'', JStr ''demo''), (''author'', JObj [(''name'', JStr ''Jane Doe'')]),
                  (''dependencies'', JNull)]]"

section \<open>Comparing runs\<close>

text \<open>The error a phase ends with, if it ends with one.\<close>

fun failure :: "error + 'a \<Rightarrow> error option" where
  "failure (Inl e) = Some e"
| "failure (Inr x) = None"

text \<open>The three properties of \<^verbatim>\<open>this.props\<close> that hold the author.\<close>

definition author_fields :: "string set" where
  "author_fields = {''authorName'', ''authorEmail'', ''authorUrl''}"

text \<open>
  Two objects with the same keys in the same order and the same values, the values under
  the keys in \<open>K\<close> aside; two generators that differ at most in the author held by
  their \<^verbatim>\<open>props\<close>, in their State Store and in their effects.
\<close>

definition same_but :: "string set \<Rightarrow> obj \<Rightarrow> obj \<Rightarrow> bool" where
  "same_but K a b = list_all2 (\<lambda>x y. fst x = fst y \<and> (fst x \<in> K \<or> snd x = snd y)) a b"

definition agree :: "generator \<Rightarrow> generator \<Rightarrow> bool" where
  "agree a b =
     (options a = options b \<and> destinationRoot a = destinationRoot b \<and> fs a = fs b
      \<and> pkg a = pkg b \<and> (\<forall>k. k \<in> author_fields \<or> get (props a) k = get (props b) k))"

section \<open>Properties\<close>

subsection \<open>Basic facts\<close>

lemma get_update: "get (AList.update k v ob) k' = (if k' = k then v else get ob k')"
  by (simp add: get_def update_conv')

lemma get_Nil: "get [] k = JUndefined"
  by (simp add: get_def)

lemma get_Cons: "get ((k, v) # ob) k' = (if k' = k then v else get ob k')"
  by (simp add: get_def)

lemma get_merge_obj:
  "distinct (map fst src) \<Longrightarrow>
   get (merge_obj dst src) k =
     (case map_of src k of None \<Rightarrow> get dst k | Some sv \<Rightarrow> merge_val (get dst k) sv)"
proof (induction src arbitrary: dst)
  case Nil
  then show ?case by simp
next
  case (Cons a src)
  obtain k' sv where a: "a = (k', sv)" by (cases a)
  from Cons.prems a have nin: "map_of src k' = None" and d: "distinct (map fst src)"
    by (auto simp: map_of_eq_None_iff)
  show ?case
    using Cons.IH [OF d] nin a by (auto simp: get_update split: option.splits)
qed

lemma get_defaults_obj:
  "distinct (map fst src) \<Longrightarrow>
   get (defaults_obj dst src) k =
     (case map_of src k of None \<Rightarrow> get dst k | Some sv \<Rightarrow> defaults_val (get dst k) sv)"
proof (induction src arbitrary: dst)
  case Nil
  then show ?case by simp
next
  case (Cons a src)
  obtain k' sv where a: "a = (k', sv)" by (cases a)
  from Cons.prems a have nin: "map_of src k' = None" and d: "distinct (map fst src)"
    by (auto simp: map_of_eq_None_iff)
  show ?case
    using Cons.IH [OF d] nin a by (auto simp: get_update split: option.splits)
qed

lemma distinct_merge_obj: "distinct (map fst dst) \<Longrightarrow> distinct (map fst (merge_obj dst src))"
proof (induction src arbitrary: dst)
  case Nil
  then show ?case by simp
next
  case (Cons a src)
  then show ?case by (cases a) (simp add: distinct_update)
qed

lemma distinct_defaults_obj: "distinct (map fst dst) \<Longrightarrow> distinct (map fst (defaults_obj dst src))"
proof (induction src arbitrary: dst)
  case Nil
  then show ?case by simp
next
  case (Cons a src)
  then show ?case by (cases a) (simp add: distinct_update)
qed

lemma map_of_prompt:
  "distinct (map fst qs) \<Longrightarrow>
   map_of (prompt qs) k = (case map_of qs k of Some (w, a) \<Rightarrow> if w then Some a else None | None \<Rightarrow> None)"
proof (induction qs)
  case Nil
  then show ?case by (simp add: prompt_def)
next
  case (Cons q qs)
  obtain n w a where q: "q = (n, w, a)" by (cases q)
  from Cons.prems q have nin: "map_of qs n = None" and d: "distinct (map fst qs)"
    by (auto simp: map_of_eq_None_iff)
  have step: "prompt ((n, b, a) # qs) = (if b then (n, a) # prompt qs else prompt qs)" for b
    by (simp add: prompt_def)
  show ?case
    using Cons.IH [OF d] nin by (auto simp: step q split: option.splits)
qed

lemma keys_prompt: "map fst (prompt qs) = map fst (filter (\<lambda>(n, w, a). w) qs)"
  by (induction qs) (auto simp: prompt_def)

lemma distinct_prompt: "distinct (map fst qs) \<Longrightarrow> distinct (map fst (prompt qs))"
  by (simp add: keys_prompt distinct_map_filter)

lemma distinct_prompts: "distinct (map fst (prompts r g))"
  by (simp add: prompts_def)

lemma get_merge_answers:
  "get (props (merge_answers L r g)) k =
     (case map_of (prompts r (resolve_name L g)) k of
        Some (w, a) \<Rightarrow> if w then merge_val (get (props (resolve_name L g)) k) a
                      else get (props (resolve_name L g)) k
      | None \<Rightarrow> get (props (resolve_name L g)) k)"
  by (simp add: merge_answers_def Let_def get_merge_obj distinct_prompt distinct_prompts
        map_of_prompt split: option.splits)

lemma asked_iff:
  "k \<in> set (asked L r g) \<longleftrightarrow> (\<exists>a. map_of (prompts r (resolve_name L g)) k = Some (True, a))"
proof -
  have "k \<in> set (asked L r g) \<longleftrightarrow> map_of (prompt (prompts r (resolve_name L g))) k \<noteq> None"
    by (simp add: asked_def map_of_eq_None_iff)
  also have "\<dots> \<longleftrightarrow> (\<exists>a. map_of (prompts r (resolve_name L g)) k = Some (True, a))"
    by (cases "map_of (prompts r (resolve_name L g)) k")
      (simp_all add: map_of_prompt [OF distinct_prompts] split: prod.splits)
  finally show ?thesis .
qed

lemma props_askFor: "props (askFor L r g) = props (merge_answers L r g)"
  by (simp add: askFor_def Let_def config_set_def relocate_def)

lemma pkg_resolve_name: "pkg (resolve_name L g) = pkg g"
  by (simp add: resolve_name_def)

lemma get_props_resolve_name:
  "get (props (resolve_name L g)) k =
     (if k = ''name'' \<and> (truthy (get (pkg g) ''name'') \<or> truthy (opt_js (opt_name (options g))))
      then js_or (get (pkg g) ''name'') (JStr (kebabCase L (opt_js (opt_name (options g)))))
      else get (props g) k)"
  by (simp add: resolve_name_def get_update)

lemma map_of_prompts_name:
  "map_of (prompts r g) ''name'' = Some (\<not> truthy (get (props g) ''name''), JStr (reply_name r))"
  by (simp add: prompts_def)

lemma name_from_manifest:
  assumes "truthy (get (pkg g) ''name'')"
  shows "get (props (askFor L r g)) ''name'' = get (pkg g) ''name''"
    and "''name'' \<notin> set (asked L r g)"
  using assms
  by (simp_all add: props_askFor get_merge_answers asked_iff map_of_prompts_name
        get_props_resolve_name js_or_def)

lemma name_from_option:
  assumes "\<not> truthy (get (pkg g) ''name'')" and "opt_name (options g) = Some s"
    and "kebabCase L (JStr s) \<noteq> []" and "s \<noteq> []"
  shows "get (props (askFor L r g)) ''name'' = JStr (kebabCase L (JStr s))"
    and "''name'' \<notin> set (asked L r g)"
  using assms
  by (simp_all add: props_askFor get_merge_answers asked_iff map_of_prompts_name
        get_props_resolve_name js_or_def)

lemma initializing_eq:
  "readJSON (fs g) (destinationPath g ''package.json'') [] = Inr p0 \<Longrightarrow> filter_keywords p0 = Inr p \<Longrightarrow>
   initializing L g = Inr (g\<lparr>pkg := p, props := initial_props L g p\<rparr>)"
  by (simp add: initializing_def)

lemma initializing_Inr:
  assumes "initializing L g = Inr g'"
  obtains p0 p where "readJSON (fs g) (destinationPath g ''package.json'') [] = Inr p0"
    and "filter_keywords p0 = Inr p" and "g' = g\<lparr>pkg := p, props := initial_props L g p\<rparr>"
  using assms by (auto simp: initializing_def split: sum.splits)

lemma author_filter_keywords: "filter_keywords p0 = Inr p \<Longrightarrow> get p ''author'' = get p0 ''author''"
  by (auto simp: filter_keywords_def get_update split: if_splits jsval.splits)

lemma initial_props_object:
  assumes "isObject (get p ''author'')"
  shows "get (initial_props L g p) ''serverType'' =
           JStr (if fs_exists (fs g) (destinationPath g ''src/server/express-server.js'') then ExpressJS
                 else if fs_exists (fs g) (destinationPath g ''src/server/koa-server.js'') then KoaJS
                 else HapiJS)"
    and "get (initial_props L g p) ''createDirectory'' = JBool False"
    and "get (initial_props L g p) ''pwa'' = JBool (fs_exists (fs g) (destinationPath g ''client/sw-registration.js''))"
    and "get (initial_props L g p) ''autoSsr'' = JBool (fs_exists (fs g) (destinationPath g ''server/plugins/autossr.js''))"
    and "get (initial_props L g p) ''quoteType'' =
           JStr (if fs_exists (fs g) (destinationPath g ''.eslintrc'') then singleQuote else doubleQuote)"
  using assms by (simp_all add: initial_props_def assign_def get_Cons get_Nil Let_def)

lemma initial_props_no_object:
  assumes "\<not> isObject (get p ''author'')"
  shows "get (initial_props L g p) ''serverType'' = JUndefined"
    and "get (initial_props L g p) ''createDirectory'' = JUndefined"
    and "get (initial_props L g p) ''pwa'' = JUndefined"
    and "get (initial_props L g p) ''autoSsr'' = JUndefined"
    and "get (initial_props L g p) ''quoteType'' = JUndefined"
  using assms by (simp_all add: initial_props_def assign_def get_Cons get_Nil Let_def split: jsval.splits)

lemma initial_props_string:
  assumes "get p ''author'' = JStr s"
  shows "get (initial_props L g p) ''authorName'' = get (parseAuthor L s) ''name''"
    and "get (initial_props L g p) ''authorEmail'' = get (parseAuthor L s) ''email''"
    and "get (initial_props L g p) ''authorUrl'' = get (parseAuthor L s) ''url''"
  using assms by (simp_all add: initial_props_def assign_def get_Cons get_Nil Let_def)

lemma map_of_prompts:
  "map_of (prompts r g) ''serverType'' =
     Some (\<not> truthy (get (props g) ''serverType''), JStr (framework_name (reply_serverType r)))"
  "map_of (prompts r g) ''authorName'' =
     Some (\<not> truthy (get (props g) ''authorName''), JStr (reply_authorName r))"
  "map_of (prompts r g) ''authorEmail'' =
     Some (\<not> truthy (get (props g) ''authorEmail''), JStr (reply_authorEmail r))"
  "map_of (prompts r g) ''authorUrl'' =
     Some (\<not> truthy (get (props g) ''authorUrl''), JStr (reply_authorUrl r))"
  "map_of (prompts r g) ''pwa'' = Some (get (props g) ''pwa'' = JUndefined, JBool (reply_pwa r))"
  "map_of (prompts r g) ''autoSsr'' = Some (get (props g) ''autoSsr'' = JUndefined, JBool (reply_autoSsr r))"
  "map_of (prompts r g) ''quoteType'' =
     Some (get (props g) ''quoteType'' = JUndefined, JStr (quote_str (reply_quoteType r)))"
  "map_of (prompts r g) ''createDirectory'' =
     Some (get (props g) ''createDirectory'' = JUndefined, JBool (reply_createDirectory r))"
  by (simp_all add: prompts_def)

lemma framework_name_nonempty: "framework_name f \<noteq> []"
  by (cases f) (simp_all add: HapiJS_def ExpressJS_def KoaJS_def)

lemma destinationRoot_merge_answers: "destinationRoot (merge_answers L r g) = destinationRoot g"
  and effects_merge_answers: "effects (merge_answers L r g) = effects g"
  and config_merge_answers: "config (merge_answers L r g) = config g"
  by (simp_all add: merge_answers_def Let_def resolve_name_def)

lemma askFor_stay:
  assumes "\<not> truthy (get (props (merge_answers L r g)) ''createDirectory'')"
  shows "destinationRoot (askFor L r g) = destinationRoot g"
    and "effects (askFor L r g) =
           effects g @ [ConfigSet (destinationRoot g) ''serverType''
                          (get (props (merge_answers L r g)) ''serverType'')]"
  using assms
  by (simp_all add: askFor_def Let_def config_set_def destinationRoot_merge_answers
        effects_merge_answers)

lemma askFor_relocate:
  assumes "truthy (get (props (merge_answers L r g)) ''createDirectory'')"
  shows "destinationRoot (askFor L r g) = newRoot L (merge_answers L r g)"
    and "effects (askFor L r g) =
           effects g @ [Relocate (newRoot L (merge_answers L r g)),
                        ConfigSet (newRoot L (merge_answers L r g)) ''serverType''
                          (get (props (merge_answers L r g)) ''serverType'')]"
    and "config_get ''serverType'' (askFor L r g) = get (props (merge_answers L r g)) ''serverType''"
  using assms
  by (simp_all add: askFor_def Let_def config_set_def relocate_def config_get_def get_update
        effects_merge_answers)

lemma readJSON_other_files:
  "f' (destinationPath g ''package.json'') = fs g (destinationPath g ''package.json'') \<Longrightarrow>
   readJSON f' (destinationPath (g\<lparr>fs := f'\<rparr>) ''package.json'') [] =
   readJSON (fs g) (destinationPath g ''package.json'') []"
  by (simp add: readJSON_def destinationPath_def)

lemma initializing_other_files:
  assumes "initializing L g = Inr g'"
    and "f' (destinationPath g ''package.json'') = fs g (destinationPath g ''package.json'')"
  shows "\<exists>g''. initializing L (g\<lparr>fs := f'\<rparr>) = Inr g''"
proof -
  from assms(1) obtain p0 p where
    "readJSON (fs g) (destinationPath g ''package.json'') [] = Inr p0" "filter_keywords p0 = Inr p"
    by (rule initializing_Inr)
  then show ?thesis
    using readJSON_other_files [of f' g] assms(2) by (simp add: initializing_def)
qed

lemma detected_serverType:
  assumes "initializing L g = Inr g'" and "isObject (get (pkg g') ''author'')"
  shows "get (props g') ''serverType'' =
           JStr (if fs_exists (fs g) (destinationPath g ''src/server/express-server.js'') then ExpressJS
                 else if fs_exists (fs g) (destinationPath g ''src/server/koa-server.js'') then KoaJS
                 else HapiJS)"
    and "''serverType'' \<notin> set (asked L r g')"
    and "get (props (askFor L r g')) ''serverType'' = get (props g') ''serverType''"
proof -
  from assms(1) obtain p0 p where
    "readJSON (fs g) (destinationPath g ''package.json'') [] = Inr p0" "filter_keywords p0 = Inr p"
    and g': "g' = g\<lparr>pkg := p, props := initial_props L g p\<rparr>"
    by (rule initializing_Inr)
  with assms(2) have ob: "isObject (get p ''author'')" by simp
  show 1: "get (props g') ''serverType'' =
           JStr (if fs_exists (fs g) (destinationPath g ''src/server/express-server.js'') then ExpressJS
                 else if fs_exists (fs g) (destinationPath g ''src/server/koa-server.js'') then KoaJS
                 else HapiJS)"
    using initial_props_object(1) [OF ob] g' by simp
  then have t: "truthy (get (props g') ''serverType'')"
    by (simp add: ExpressJS_def KoaJS_def HapiJS_def)
  show "''serverType'' \<notin> set (asked L r g')"
    using t by (simp add: asked_iff map_of_prompts get_props_resolve_name)
  show "get (props (askFor L r g')) ''serverType'' = get (props g') ''serverType''"
    using t by (simp add: props_askFor get_merge_answers map_of_prompts get_props_resolve_name)
qed

lemma undetected:
  assumes "initializing L g = Inr g'" and "\<not> isObject (get (pkg g') ''author'')"
    and "k \<in> {''serverType'', ''pwa'', ''autoSsr'', ''quoteType'', ''createDirectory''}"
  shows "get (props g') k = JUndefined" and "k \<in> set (asked L r g')"
proof -
  from assms(1) obtain p0 p where
    "readJSON (fs g) (destinationPath g ''package.json'') [] = Inr p0" "filter_keywords p0 = Inr p"
    and g': "g' = g\<lparr>pkg := p, props := initial_props L g p\<rparr>"
    by (rule initializing_Inr)
  with assms(2) have ob: "\<not> isObject (get p ''author'')" by simp
  show u: "get (props g') k = JUndefined"
    using initial_props_no_object [OF ob] g' assms(3) by auto
  show "k \<in> set (asked L r g')"
    using assms(3) u by (auto simp: asked_iff map_of_prompts get_props_resolve_name)
qed

lemma undetected_replies:
  assumes "initializing L g = Inr g'" and "\<not> isObject (get (pkg g') ''author'')"
  shows "get (props (askFor L r g')) ''serverType'' = JStr (framework_name (reply_serverType r))"
    and "get (props (askFor L r g')) ''pwa'' = JBool (reply_pwa r)"
    and "get (props (askFor L r g')) ''autoSsr'' = JBool (reply_autoSsr r)"
    and "get (props (askFor L r g')) ''quoteType'' = JStr (quote_str (reply_quoteType r))"
    and "get (props (askFor L r g')) ''createDirectory'' = JBool (reply_createDirectory r)"
  using undetected(1) [OF assms]
  by (simp_all add: props_askFor get_merge_answers map_of_prompts get_props_resolve_name)

lemma structured_author_stays:
  assumes "initializing L g = Inr g'" and "isObject (get (pkg g') ''author'')"
  shows "get (props g') ''createDirectory'' = JBool False"
    and "''createDirectory'' \<notin> set (asked L r g')"
    and "destinationRoot (askFor L r g') = destinationRoot g"
    and "effects (askFor L r g') =
           effects g @ [ConfigSet (destinationRoot g) ''serverType'' (get (props g') ''serverType'')]"
proof -
  from assms(1) obtain p0 p where
    "readJSON (fs g) (destinationPath g ''package.json'') [] = Inr p0" "filter_keywords p0 = Inr p"
    and g': "g' = g\<lparr>pkg := p, props := initial_props L g p\<rparr>"
    by (rule initializing_Inr)
  with assms(2) have ob: "isObject (get p ''author'')" by simp
  show cd: "get (props g') ''createDirectory'' = JBool False"
    using initial_props_object(2) [OF ob] g' by simp
  show "''createDirectory'' \<notin> set (asked L r g')"
    using cd by (simp add: asked_iff map_of_prompts get_props_resolve_name)
  have m: "\<not> truthy (get (props (merge_answers L r g')) ''createDirectory'')"
    using cd by (simp add: get_merge_answers map_of_prompts get_props_resolve_name)
  have s: "get (props (merge_answers L r g')) ''serverType'' = get (props g') ''serverType''"
    using detected_serverType(3) [OF assms, of r] by (simp add: props_askFor)
  show "destinationRoot (askFor L r g') = destinationRoot g"
    using askFor_stay(1) [OF m] g' by simp
  show "effects (askFor L r g') =
           effects g @ [ConfigSet (destinationRoot g) ''serverType'' (get (props g') ''serverType'')]"
    using askFor_stay(2) [OF m] g' s by simp
qed

lemma parsed_author:
  assumes "readJSON (fs g) (destinationPath g ''package.json'') [] = Inr p0"
    and "filter_keywords p0 = Inr p" and "get p0 ''author'' = JStr s"
    and g': "g' = g\<lparr>pkg := p, props := initial_props L g p\<rparr>"
  shows "initializing L g = Inr g'"
    and "get (props g') ''authorName'' = get (parseAuthor L s) ''name''"
    and "get (props g') ''authorEmail'' = get (parseAuthor L s) ''email''"
    and "get (props g') ''authorUrl'' = get (parseAuthor L s) ''url''"
    and "get (parseAuthor L s) ''name'' = JUndefined \<Longrightarrow>
           ''authorName'' \<in> set (asked L r g')
           \<and> get (props (askFor L r g')) ''authorName'' = JStr (reply_authorName r)"
    and "get (parseAuthor L s) ''email'' = JUndefined \<Longrightarrow>
           ''authorEmail'' \<in> set (asked L r g')
           \<and> get (props (askFor L r g')) ''authorEmail'' = JStr (reply_authorEmail r)"
    and "get (parseAuthor L s) ''url'' = JUndefined \<Longrightarrow>
           ''authorUrl'' \<in> set (asked L r g')
           \<and> get (props (askFor L r g')) ''authorUrl'' = JStr (reply_authorUrl r)"
proof -
  have a: "get p ''author'' = JStr s"
    using author_filter_keywords [OF assms(2)] assms(3) by simp
  show "initializing L g = Inr g'"
    using initializing_eq [OF assms(1,2)] g' by simp
  show n: "get (props g') ''authorName'' = get (parseAuthor L s) ''name''"
    and e: "get (props g') ''authorEmail'' = get (parseAuthor L s) ''email''"
    and u: "get (props g') ''authorUrl'' = get (parseAuthor L s) ''url''"
    using initial_props_string [OF a] g' by simp_all
  show "get (parseAuthor L s) ''name'' = JUndefined \<Longrightarrow>
           ''authorName'' \<in> set (asked L r g')
           \<and> get (props (askFor L r g')) ''authorName'' = JStr (reply_authorName r)"
    using n by (simp add: asked_iff props_askFor get_merge_answers map_of_prompts get_props_resolve_name)
  show "get (parseAuthor L s) ''email'' = JUndefined \<Longrightarrow>
           ''authorEmail'' \<in> set (asked L r g')
           \<and> get (props (askFor L r g')) ''authorEmail'' = JStr (reply_authorEmail r)"
    using e by (simp add: asked_iff props_askFor get_merge_answers map_of_prompts get_props_resolve_name)
  show "get (parseAuthor L s) ''url'' = JUndefined \<Longrightarrow>
           ''authorUrl'' \<in> set (asked L r g')
           \<and> get (props (askFor L r g')) ''authorUrl'' = JStr (reply_authorUrl r)"
    using u by (simp add: asked_iff props_askFor get_merge_answers map_of_prompts get_props_resolve_name)
qed

subsection \<open>Server entry files left out of the copy\<close>

text \<open>
  C3 (amended). For each of the three frameworks the ignore patterns of the writing phase
  are exactly the patterns of the entry files of the other frameworks, where ExpressJS
  and KoaJS have an entry file and HapiJS has none. Applied to a template tree that holds
  both entry files, the copy keeps the entry file of the chosen framework and no other:
  one file for ExpressJS and for KoaJS, none for HapiJS.
\<close>

theorem ignoreArray_other_entry_files:
  "ignoreArray (framework_name f = HapiJS) (framework_name f = ExpressJS)
     = map (\<lambda>e. ''**'' @ e)
         (List.map_filter (entry_file []) (filter (\<lambda>f'. f' \<noteq> f) [Hapi, Express, Koa]))
   \<and> copied (ignoreArray (framework_name f = HapiJS) (framework_name f = ExpressJS))
         [t @ ''/src/server/express-server.js'', t @ ''/src/server/koa-server.js'']
     = (case entry_file t f of None \<Rightarrow> [] | Some e \<Rightarrow> [e])"
  by (cases f)
    (simp_all add: copied_def ignoreArray_def HapiJS_def ExpressJS_def KoaJS_def
       glob_match_def ends_with_def List.map_filter_def)

text \<open>
  The claim as stated fails: whatever third file \<open>h\<close> is taken as the entry file of
  HapiJS, it is not the case that the copy keeps exactly one of the three files for each
  framework.
\<close>

theorem ignoreArray_not_one_of_three:
  "\<not> (\<exists>h. \<forall>f.
        length (copied (ignoreArray (framework_name f = HapiJS) (framework_name f = ExpressJS))
                  [''templates/src/server/express-server.js'',
                   ''templates/src/server/koa-server.js'', h]) = 1)"
proof
  assume "\<exists>h. \<forall>f.
        length (copied (ignoreArray (framework_name f = HapiJS) (framework_name f = ExpressJS))
                  [''templates/src/server/express-server.js'',
                   ''templates/src/server/koa-server.js'', h]) = 1"
  then obtain h where h: "\<And>f.
        length (copied (ignoreArray (framework_name f = HapiJS) (framework_name f = ExpressJS))
                  [''templates/src/server/express-server.js'',
                   ''templates/src/server/koa-server.js'', h]) = 1"
    by blast
  have koa: "glob_match ''**/src/server/koa-server.js'' h"
    using h [of Express]
    by (simp add: copied_def ignoreArray_def HapiJS_def ExpressJS_def KoaJS_def
          glob_match_def ends_with_def split: if_splits)
  show False
    using h [of Hapi] koa
    by (simp add: copied_def ignoreArray_def HapiJS_def ExpressJS_def KoaJS_def
          glob_match_def ends_with_def split: if_splits)
qed

subsection \<open>The example destinations\<close>

lemma init_structured_author:
  "initializing simple_libs (generator_at structured_author_fs) =
     Inr ((generator_at structured_author_fs)
            \<lparr>pkg := structured_author_manifest,
             props := initial_props simple_libs (generator_at structured_author_fs)
                        structured_author_manifest\<rparr>)"
proof (rule initializing_eq)
  show "readJSON (fs (generator_at structured_author_fs))
          (destinationPath (generator_at structured_author_fs) ''package.json'') []
        = Inr structured_author_manifest"
    by (simp add: readJSON_def generator_at_def destinationPath_def structured_author_fs_def)
  show "filter_keywords structured_author_manifest = Inr structured_author_manifest"
    by (simp add: filter_keywords_def structured_author_manifest_def get_Cons get_Nil)
qed

lemma read_string_author:
  "readJSON (fs (generator_at string_author_fs))
     (destinationPath (generator_at string_author_fs) ''package.json'') []
   = Inr string_author_manifest"
  by (simp add: readJSON_def generator_at_def destinationPath_def string_author_fs_def)

lemma keywords_string_author:
  "filter_keywords string_author_manifest = Inr string_author_manifest"
  by (simp add: filter_keywords_def string_author_manifest_def get_Cons get_Nil)

lemma init_string_author:
  "initializing simple_libs (generator_at string_author_fs) =
     Inr ((generator_at string_author_fs)
            \<lparr>pkg := string_author_manifest,
             props := initial_props simple_libs (generator_at string_author_fs)
                        string_author_manifest\<rparr>)"
  by (rule initializing_eq [OF read_string_author keywords_string_author])

lemma express_file_exists:
  "fs_exists (fs (generator_at structured_author_fs))
     (destinationPath (generator_at structured_author_fs) ''src/server/express-server.js'')"
  "fs_exists string_author_fs ''/work/src/server/express-server.js''"
  by (simp_all add: fs_exists_def generator_at_def destinationPath_def structured_author_fs_def
        string_author_fs_def)

subsection \<open>The project name\<close>

text \<open>
  C1 (amended). When the manifest has a name, the resolved name is the manifest's name,
  whether or not a name is given on the command line, and the name question is not asked.
  When the manifest has no name and the command line gives a non-empty one whose
  kebab-case form is not empty, the resolved name is that kebab-case form and the name
  question is not asked.
\<close>

theorem name_manifest_before_option:
  "(truthy (get (pkg g) ''name'') \<longrightarrow>
      get (props (askFor L r g)) ''name'' = get (pkg g) ''name''
      \<and> ''name'' \<notin> set (asked L r g))
   \<and> (\<not> truthy (get (pkg g) ''name'') \<and> opt_name (options g) = Some s \<and> s \<noteq> []
        \<and> kebabCase L (JStr s) \<noteq> [] \<longrightarrow>
      get (props (askFor L r g)) ''name'' = JStr (kebabCase L (JStr s))
      \<and> ''name'' \<notin> set (asked L r g))"
  using name_from_manifest [of g L r] name_from_option [of g s L r] by blast

text \<open>
  Witness: a manifest named \<open>manifest-app\<close> with the option \<open>cli-app\<close>, and no manifest
  name with the same option.
\<close>

theorem name_manifest_before_option_witness:
  "get (props (askFor simple_libs example_replies named_generator)) ''name'' = JStr ''manifest-app''
   \<and> ''name'' \<notin> set (asked simple_libs example_replies named_generator)
   \<and> get (props (askFor simple_libs example_replies unnamed_generator)) ''name'' = JStr ''cli-app''
   \<and> ''name'' \<notin> set (asked simple_libs example_replies unnamed_generator)"
proof -
  have k: "kebabCase simple_libs (JStr ''cli-app'') = ''cli-app''"
    by (simp add: simple_libs_def is_alnum_def lower_def)
  have 1: "truthy (get (pkg named_generator) ''name'')"
    and 2: "get (pkg named_generator) ''name'' = JStr ''manifest-app''"
    by (simp_all add: named_generator_def generator_at_def get_Cons)
  have 3: "\<not> truthy (get (pkg unnamed_generator) ''name'')"
    and 4: "opt_name (options unnamed_generator) = Some ''cli-app''"
    by (simp_all add: unnamed_generator_def generator_at_def example_options_def get_Nil)
  show ?thesis
    using name_manifest_before_option [of named_generator simple_libs example_replies "''cli-app''"]
      name_manifest_before_option [of unnamed_generator simple_libs example_replies "''cli-app''"]
      1 2 3 4 k
    by simp
qed

text \<open>
  The claim as stated fails: with both a manifest name and a command-line name, the
  resolved name is not the command-line value (nor its kebab-case form).
\<close>

theorem name_option_does_not_outrank_manifest:
  "truthy (get (pkg named_generator) ''name'')
   \<and> opt_name (options named_generator) = Some ''cli-app''
   \<and> get (props (askFor simple_libs example_replies named_generator)) ''name'' \<noteq> JStr ''cli-app''
   \<and> get (props (askFor simple_libs example_replies named_generator)) ''name''
        \<noteq> JStr (kebabCase simple_libs (JStr ''cli-app''))"
proof -
  have t: "truthy (get (pkg named_generator) ''name'')"
    by (simp add: named_generator_def generator_at_def get_Cons)
  have "get (props (askFor simple_libs example_replies named_generator)) ''name''
          = JStr ''manifest-app''"
    using name_from_manifest(1) [OF t] by (simp add: named_generator_def generator_at_def get_Cons)
  moreover have "kebabCase simple_libs (JStr ''cli-app'') = ''cli-app''"
    by (simp add: simple_libs_def is_alnum_def lower_def)
  ultimately show ?thesis
    using t by (simp add: named_generator_def generator_at_def example_options_def)
qed

subsection \<open>Detection of the server framework\<close>

text \<open>
  C2 (amended). When the manifest's author is a structured value, \<^verbatim>\<open>initializing\<close> sets
  serverType from the entry files of the destination (ExpressJS if the express entry
  file exists, else KoaJS if the koa entry file exists, else HapiJS), the serverType
  question is not asked and \<^verbatim>\<open>askFor\<close> keeps the detected value. Whether marker files
  exist or not never makes \<^verbatim>\<open>initializing\<close> fail: on any file system with the same
  manifest it succeeds as well.
\<close>

theorem serverType_detected_for_structured_author:
  assumes "initializing L g = Inr g'" and "isObject (get (pkg g') ''author'')"
  shows "get (props g') ''serverType'' =
           JStr (if fs_exists (fs g) (destinationPath g ''src/server/express-server.js'')
                 then ExpressJS
                 else if fs_exists (fs g) (destinationPath g ''src/server/koa-server.js'')
                 then KoaJS else HapiJS)
         \<and> ''serverType'' \<notin> set (asked L r g')
         \<and> get (props (askFor L r g')) ''serverType'' = get (props g') ''serverType''
         \<and> (\<forall>f'. f' (destinationPath g ''package.json'') = fs g (destinationPath g ''package.json'')
               \<longrightarrow> (\<exists>g''. initializing L (g\<lparr>fs := f'\<rparr>) = Inr g''))"
  using detected_serverType [OF assms] initializing_other_files [OF assms(1)] by blast

text \<open>
  Witness: the destination with the ExpressJS entry file and a structured author; the
  same manifest without the entry file is initialised as well.
\<close>

theorem serverType_detected_for_structured_author_witness:
  "\<exists>g'. initializing simple_libs (generator_at structured_author_fs) = Inr g'
     \<and> isObject (get (pkg g') ''author'')
     \<and> get (props g') ''serverType'' = JStr ''ExpressJS''
     \<and> ''serverType'' \<notin> set (asked simple_libs example_replies g')
     \<and> get (props (askFor simple_libs example_replies g')) ''serverType'' = JStr ''ExpressJS''
     \<and> (\<exists>g''. initializing simple_libs
                 ((generator_at structured_author_fs)
                    \<lparr>fs := [''/work/package.json'' \<mapsto> JsonFile structured_author_manifest]\<rparr>)
               = Inr g'')"
proof -
  let ?g = "generator_at structured_author_fs"
  let ?g' = "?g\<lparr>pkg := structured_author_manifest,
                 props := initial_props simple_libs ?g structured_author_manifest\<rparr>"
  have a: "isObject (get (pkg ?g') ''author'')"
    by (simp add: structured_author_manifest_def get_Cons)
  have f: "[''/work/package.json'' \<mapsto> JsonFile structured_author_manifest]
             (destinationPath ?g ''package.json'') = fs ?g (destinationPath ?g ''package.json'')"
    by (simp add: generator_at_def destinationPath_def structured_author_fs_def)
  show ?thesis
    using serverType_detected_for_structured_author [OF init_structured_author a, of example_replies]
      init_structured_author a express_file_exists(1) f
    by (simp add: ExpressJS_def)
qed

text \<open>
  The claim as stated fails: in a destination that holds the ExpressJS entry file and a
  manifest with a free-text author, the serverType question is asked and the answer
  (here KoaJS) becomes the serverType.
\<close>

theorem serverType_asked_despite_entry_file:
  "fs_exists string_author_fs ''/work/src/server/express-server.js''
   \<and> (\<exists>g'. initializing simple_libs (generator_at string_author_fs) = Inr g'
        \<and> ''serverType'' \<in> set (asked simple_libs example_replies g')
        \<and> get (props (askFor simple_libs example_replies g')) ''serverType'' = JStr ''KoaJS'')"
proof -
  let ?g = "generator_at string_author_fs"
  let ?g' = "?g\<lparr>pkg := string_author_manifest,
                 props := initial_props simple_libs ?g string_author_manifest\<rparr>"
  have a: "\<not> isObject (get (pkg ?g') ''author'')"
    by (simp add: string_author_manifest_def get_Cons)
  have "''serverType'' \<in> set (asked simple_libs example_replies ?g')"
    by (rule undetected(2) [OF init_string_author a]) simp
  moreover have "get (props (askFor simple_libs example_replies ?g')) ''serverType'' = JStr ''KoaJS''"
    using undetected_replies(1) [OF init_string_author a, of example_replies]
    by (simp add: example_replies_def KoaJS_def)
  ultimately show ?thesis
    using init_string_author express_file_exists(2) by blast
qed

subsection \<open>Detection is tied to a structured author\<close>

text \<open>
  C10. After \<^verbatim>\<open>initializing\<close>: if the manifest's author is not a structured value (it
  is absent, a string, or any other primitive), then serverType, pwa, autoSsr, quoteType
  and createDirectory are all unset, whatever files exist, each of them is asked for, and
  the answers become their values. If the author is a structured value, createDirectory
  is false, it is not asked for, and \<^verbatim>\<open>askFor\<close> leaves the destination root where it
  is: its only effect is to store serverType under that root.
\<close>

theorem detection_iff_structured_author:
  assumes "initializing L g = Inr g'"
  shows "(\<not> isObject (get (pkg g') ''author'') \<longrightarrow>
            (\<forall>k \<in> {''serverType'', ''pwa'', ''autoSsr'', ''quoteType'', ''createDirectory''}.
               get (props g') k = JUndefined \<and> k \<in> set (asked L r g'))
            \<and> get (props (askFor L r g')) ''serverType'' = JStr (framework_name (reply_serverType r))
            \<and> get (props (askFor L r g')) ''pwa'' = JBool (reply_pwa r)
            \<and> get (props (askFor L r g')) ''autoSsr'' = JBool (reply_autoSsr r)
            \<and> get (props (askFor L r g')) ''quoteType'' = JStr (quote_str (reply_quoteType r))
            \<and> get (props (askFor L r g')) ''createDirectory'' = JBool (reply_createDirectory r))
       \<and> (isObject (get (pkg g') ''author'') \<longrightarrow>
            get (props g') ''createDirectory'' = JBool False
            \<and> ''createDirectory'' \<notin> set (asked L r g')
            \<and> destinationRoot (askFor L r g') = destinationRoot g
            \<and> effects (askFor L r g') =
                 effects g @ [ConfigSet (destinationRoot g) ''serverType''
                                (get (props g') ''serverType'')])"
proof (intro conjI impI ballI)
  fix k
  assume "\<not> isObject (get (pkg g') ''author'')"
    and "k \<in> {''serverType'', ''pwa'', ''autoSsr'', ''quoteType'', ''createDirectory''}"
  then show "get (props g') k = JUndefined" and "k \<in> set (asked L r g')"
    by (rule undetected [OF assms])+
next
  assume n: "\<not> isObject (get (pkg g') ''author'')"
  show "get (props (askFor L r g')) ''serverType'' = JStr (framework_name (reply_serverType r))"
    and "get (props (askFor L r g')) ''pwa'' = JBool (reply_pwa r)"
    and "get (props (askFor L r g')) ''autoSsr'' = JBool (reply_autoSsr r)"
    and "get (props (askFor L r g')) ''quoteType'' = JStr (quote_str (reply_quoteType r))"
    and "get (props (askFor L r g')) ''createDirectory'' = JBool (reply_createDirectory r)"
    by (rule undetected_replies [OF assms n])+
next
  assume ob: "isObject (get (pkg g') ''author'')"
  show "get (props g') ''createDirectory'' = JBool False"
    and "''createDirectory'' \<notin> set (asked L r g')"
    and "destinationRoot (askFor L r g') = destinationRoot g"
    and "effects (askFor L r g') =
           effects g @ [ConfigSet (destinationRoot g) ''serverType'' (get (props g') ''serverType'')]"
    by (rule structured_author_stays [OF assms ob])+
qed

text \<open>
  Witness: the two example destinations, both with the ExpressJS entry file. With the
  free-text author the five questions are asked; with the structured author the root
  stays \<^verbatim>\<open>/work\<close>.
\<close>

theorem detection_iff_structured_author_witness:
  "(\<exists>g'. initializing simple_libs (generator_at string_author_fs) = Inr g'
      \<and> \<not> isObject (get (pkg g') ''author'')
      \<and> get (props g') ''serverType'' = JUndefined
      \<and> ''serverType'' \<in> set (asked simple_libs example_replies g')
      \<and> ''pwa'' \<in> set (asked simple_libs example_replies g')
      \<and> ''autoSsr'' \<in> set (asked simple_libs example_replies g')
      \<and> ''quoteType'' \<in> set (asked simple_libs example_replies g')
      \<and> ''createDirectory'' \<in> set (asked simple_libs example_replies g')
      \<and> get (props (askFor simple_libs example_replies g')) ''createDirectory'' = JBool True)
   \<and> (\<exists>g'. initializing simple_libs (generator_at structured_author_fs) = Inr g'
      \<and> isObject (get (pkg g') ''author'')
      \<and> get (props g') ''createDirectory'' = JBool False
      \<and> ''createDirectory'' \<notin> set (asked simple_libs example_replies g')
      \<and> destinationRoot (askFor simple_libs example_replies g') = ''/work''
      \<and> effects (askFor simple_libs example_replies g')
          = [ConfigSet ''/work'' ''serverType'' (JStr ''ExpressJS'')])"
proof
  let ?g = "generator_at string_author_fs"
  let ?g' = "?g\<lparr>pkg := string_author_manifest,
                 props := initial_props simple_libs ?g string_author_manifest\<rparr>"
  have a: "\<not> isObject (get (pkg ?g') ''author'')"
    by (simp add: string_author_manifest_def get_Cons)
  show "\<exists>g'. initializing simple_libs (generator_at string_author_fs) = Inr g'
      \<and> \<not> isObject (get (pkg g') ''author'')
      \<and> get (props g') ''serverType'' = JUndefined
      \<and> ''serverType'' \<in> set (asked simple_libs example_replies g')
      \<and> ''pwa'' \<in> set (asked simple_libs example_replies g')
      \<and> ''autoSsr'' \<in> set (asked simple_libs example_replies g')
      \<and> ''quoteType'' \<in> set (asked simple_libs example_replies g')
      \<and> ''createDirectory'' \<in> set (asked simple_libs example_replies g')
      \<and> get (props (askFor simple_libs example_replies g')) ''createDirectory'' = JBool True"
    using detection_iff_structured_author [OF init_string_author, of example_replies]
      init_string_author a
    by (simp add: example_replies_def)
next
  let ?g = "generator_at structured_author_fs"
  let ?g' = "?g\<lparr>pkg := structured_author_manifest,
                 props := initial_props simple_libs ?g structured_author_manifest\<rparr>"
  have a: "isObject (get (pkg ?g') ''author'')"
    by (simp add: structured_author_manifest_def get_Cons)
  have s: "get (props ?g') ''serverType'' = JStr ''ExpressJS''"
    using detected_serverType(1) [OF init_structured_author a] express_file_exists(1)
    by (simp add: ExpressJS_def)
  show "\<exists>g'. initializing simple_libs (generator_at structured_author_fs) = Inr g'
      \<and> isObject (get (pkg g') ''author'')
      \<and> get (props g') ''createDirectory'' = JBool False
      \<and> ''createDirectory'' \<notin> set (asked simple_libs example_replies g')
      \<and> destinationRoot (askFor simple_libs example_replies g') = ''/work''
      \<and> effects (askFor simple_libs example_replies g')
          = [ConfigSet ''/work'' ''serverType'' (JStr ''ExpressJS'')]"
    using detection_iff_structured_author [OF init_structured_author, of example_replies]
      init_structured_author a s
    by (simp add: generator_at_def)
qed

subsection \<open>Facts about the writing phase\<close>

lemma writing_eq:
  "readJSON (fs g) (destinationPath g ''package.json'') [] = Inr cur \<Longrightarrow>
   manifest L g d cur = Inr p \<Longrightarrow>
   writing L d g = Inr (g\<lparr>effects := effects g @ write_ops g p\<rparr>)"
  by (simp add: writing_def)

lemma writing_Inr:
  assumes "writing L d g = Inr g'"
  obtains cur p where "readJSON (fs g) (destinationPath g ''package.json'') [] = Inr cur"
    and "manifest L g d cur = Inr p" and "g' = g\<lparr>effects := effects g @ write_ops g p\<rparr>"
  using assms by (auto simp: writing_def split: sum.splits)

lemma writes_of_write_ops:
  "filter is_write (write_ops g p) = [WriteJSON (destinationPath g ''package.json'') p]"
  by (simp add: write_ops_def Let_def rootConfigsToCopy_def)

lemma spawns_of_write_ops: "filter is_spawn (write_ops g p) = []"
  by (simp add: write_ops_def Let_def rootConfigsToCopy_def)

lemma eslintrc_of_write_ops:
  "length (filter (copies_template ''.eslintrc'') (write_ops g p)) =
     (if get (props g) ''quoteType'' = JStr singleQuote then 1 else 0)"
  by (simp add: write_ops_def Let_def rootConfigsToCopy_def)

lemma writes_of_end_phase: "filter is_write (effects (end_phase L g)) = filter is_write (effects g)"
  by (simp add: end_phase_def)

lemma spawns_of_end_phase:
  "filter is_spawn (effects (end_phase L g)) =
     filter is_spawn (effects g)
     @ (if get (props g) ''quoteType'' = JStr singleQuote
        then [SpawnCommandSync ''node_modules/.bin/eslint''
                [''--fix'', ''src'', ''test'', ''config'', ''--ext'', ''.js,.jsx'']]
        else [])"
  by (simp add: end_phase_def)

lemma quote_str_single: "(quote_str q = singleQuote) = (q = Single)"
  by (cases q) (simp_all add: singleQuote_def doubleQuote_def)

subsection \<open>The lint ruleset and the formatter\<close>

text \<open>
  C7 (amended). When quoteType is the single quote, the writing phase installs the root
  ruleset file \<^verbatim>\<open>.eslintrc\<close> exactly once and the end phase runs the formatter's
  auto-fix; when quoteType is the double quote, the writing phase installs no root
  ruleset file and the formatter does not run.
\<close>

theorem quoteType_selects_ruleset_and_formatter:
  assumes "get (props g) ''quoteType'' = JStr (quote_str q)"
    and "writing L d g = Inr g'"
  shows "length (filter (copies_template ''.eslintrc'') (effects g'))
           = length (filter (copies_template ''.eslintrc'') (effects g)) + (if q = Single then 1 else 0)
         \<and> filter is_spawn (effects (end_phase L g'))
           = filter is_spawn (effects g)
             @ (if q = Single
                then [SpawnCommandSync ''node_modules/.bin/eslint''
                        [''--fix'', ''src'', ''test'', ''config'', ''--ext'', ''.js,.jsx'']]
                else [])"
proof -
  from assms(2) obtain cur p where g': "g' = g\<lparr>effects := effects g @ write_ops g p\<rparr>"
    by (rule writing_Inr)
  show ?thesis
    using assms(1)
    by (simp add: g' eslintrc_of_write_ops spawns_of_end_phase spawns_of_write_ops quote_str_single)
qed

text \<open>Witness: a generator with single quotes chosen, writing into an empty destination.\<close>

theorem quoteType_selects_ruleset_and_formatter_witness:
  "\<exists>g'. writing simple_libs [] single_quote_generator = Inr g'
     \<and> length (filter (copies_template ''.eslintrc'') (effects g')) = 1
     \<and> filter is_spawn (effects (end_phase simple_libs g'))
         = [SpawnCommandSync ''node_modules/.bin/eslint''
              [''--fix'', ''src'', ''test'', ''config'', ''--ext'', ''.js,.jsx'']]"
proof -
  have r: "readJSON (fs single_quote_generator)
             (destinationPath single_quote_generator ''package.json'') [] = Inr []"
    by (simp add: readJSON_def single_quote_generator_def generator_at_def)
  have "\<exists>p. manifest simple_libs single_quote_generator [] [] = Inr p"
    by (simp add: manifest_def single_quote_generator_def generator_at_def updatePkg_def
          clear_falsy_def scalar_fields_def default_manifest_def get_def js_or_def
          combine_keywords_def dependency_groups_def sortDep_def defaults_val.simps)
  then obtain p where "manifest simple_libs single_quote_generator [] [] = Inr p" ..
  from writing_eq [OF r this]
  have w: "writing simple_libs [] single_quote_generator
             = Inr (single_quote_generator
                     \<lparr>effects := effects single_quote_generator @ write_ops single_quote_generator p\<rparr>)" .
  have q: "get (props single_quote_generator) ''quoteType'' = JStr (quote_str Single)"
    and e: "effects single_quote_generator = []"
    by (simp_all add: single_quote_generator_def generator_at_def get_Cons)
  show ?thesis
    using quoteType_selects_ruleset_and_formatter [OF q w] w e
    by simp
qed

text \<open>
  The claim as stated fails: it is not in all cases that exactly one ruleset file is
  selected; with the double quote the list of root configurations has no ruleset file.
\<close>

theorem double_quote_selects_no_ruleset:
  "\<not> (\<forall>q. length (filter (\<lambda>f. f = ''.eslintrc'') (rootConfigsToCopy (quote_str q = singleQuote))) = 1)"
proof
  assume "\<forall>q. length (filter (\<lambda>f. f = ''.eslintrc'')
                         (rootConfigsToCopy (quote_str q = singleQuote))) = 1"
  then have "length (filter (\<lambda>f. f = ''.eslintrc'')
                       (rootConfigsToCopy (quote_str Double = singleQuote))) = 1"
    by blast
  then show False
    by (simp add: rootConfigsToCopy_def singleQuote_def doubleQuote_def)
qed

subsection \<open>Relocation of the destination root\<close>

lemma initializing_keeps:
  assumes "initializing L g = Inr g1"
  shows "destinationRoot g1 = destinationRoot g" and "effects g1 = effects g"
proof -
  from assms obtain p0 p where
    "readJSON (fs g) (destinationPath g ''package.json'') [] = Inr p0" "filter_keywords p0 = Inr p"
    and g1: "g1 = g\<lparr>pkg := p, props := initial_props L g p\<rparr>"
    by (rule initializing_Inr)
  show "destinationRoot g1 = destinationRoot g" and "effects g1 = effects g"
    by (simp_all add: g1)
qed

lemma askFor_relocate_config:
  assumes "truthy (get (props (merge_answers L r g)) ''createDirectory'')"
  shows "get (config (askFor L r g) (newRoot L (merge_answers L r g))) ''serverType''
           = get (props (merge_answers L r g)) ''serverType''"
  using assms by (simp add: askFor_def Let_def config_set_def relocate_def get_update)

lemma run_Inr:
  assumes "run L r others d g = Inr gf" and "initializing L g = Inr g1"
  obtains g3 where "writing L d ((askFor L r g1)\<lparr>fs := others (fs (askFor L r g1))\<rparr>) = Inr g3"
    and "gf = end_phase L g3"
  using assms by (auto simp: run_def Let_def split: sum.splits)

text \<open>
  C4. Whenever createDirectory is true after the answers are merged, the destination root
  becomes the sub-directory of the old root named by the kebab-case form of the deburred
  project name; the relocation is the first effect of the run, storing serverType is the
  second and is made under the new root, and the only manifest write of the run comes
  after both and goes to \<^verbatim>\<open>package.json\<close> under the new root.
\<close>

theorem relocation_before_store_and_manifest:
  assumes "initializing L g = Inr g1"
    and "truthy (get (props (merge_answers L r g1)) ''createDirectory'')"
    and "run L r others d g = Inr gf"
    and "n = destinationRoot g @ ''/''
               @ kebabCase L (JStr (deburr L (get (props (merge_answers L r g1)) ''name'')))"
    and "v = get (props (merge_answers L r g1)) ''serverType''"
  shows "\<exists>p rest. destinationRoot gf = n
           \<and> effects gf = effects g @ [Relocate n, ConfigSet n ''serverType'' v] @ rest
           \<and> filter is_write rest = [WriteJSON (n @ ''/package.json'') p]
           \<and> get (config gf n) ''serverType'' = v"
proof -
  let ?g2 = "askFor L r g1"
  let ?g2' = "?g2\<lparr>fs := others (fs ?g2)\<rparr>"
  have n: "n = newRoot L (merge_answers L r g1)"
    using assms(4) initializing_keeps(1) [OF assms(1)]
    by (simp add: newRoot_def destinationRoot_merge_answers)
  from assms(3,1) obtain g3 where w: "writing L d ?g2' = Inr g3" and gf: "gf = end_phase L g3"
    by (rule run_Inr)
  from w obtain cur p where g3: "g3 = ?g2'\<lparr>effects := effects ?g2' @ write_ops ?g2' p\<rparr>"
    by (rule writing_Inr)
  let ?rest = "write_ops ?g2' p @ drop (length (effects g3)) (effects gf)"
  have root: "destinationRoot gf = n"
    using askFor_relocate(1) [OF assms(2)] by (simp add: gf g3 end_phase_def n)
  have eff: "effects gf = effects g @ [Relocate n, ConfigSet n ''serverType'' v] @ ?rest"
    using askFor_relocate(2) [OF assms(2)] initializing_keeps(2) [OF assms(1)]
    by (simp add: gf g3 end_phase_def n assms(5))
  have "filter is_write (drop (length (effects g3)) (effects gf)) = []"
    by (simp add: gf end_phase_def)
  then have wr: "filter is_write ?rest = [WriteJSON (n @ ''/package.json'') p]"
    using askFor_relocate(1) [OF assms(2)]
    by (simp add: writes_of_write_ops destinationPath_def n)
  have cfg: "get (config gf n) ''serverType'' = v"
    using askFor_relocate_config [OF assms(2)] by (simp add: gf g3 end_phase_def n assms(5))
  from root eff wr cfg show ?thesis
    by blast
qed

text \<open>
  Witness: in an empty \<^verbatim>\<open>/work\<close>, with the name \<open>My Cool App\<close> entered and a new
  directory asked for, the root becomes \<^verbatim>\<open>/work/my-cool-app\<close>.
\<close>

theorem relocation_before_store_and_manifest_witness:
  "\<exists>gf p rest. run simple_libs example_replies id [] plain_generator = Inr gf
     \<and> destinationRoot gf = ''/work/my-cool-app''
     \<and> effects gf = [Relocate ''/work/my-cool-app'',
                      ConfigSet ''/work/my-cool-app'' ''serverType'' (JStr ''KoaJS'')] @ rest
     \<and> filter is_write rest = [WriteJSON ''/work/my-cool-app/package.json'' p]
     \<and> get (config gf ''/work/my-cool-app'') ''serverType'' = JStr ''KoaJS''"
proof -
  let ?g1 = "plain_generator\<lparr>pkg := [], props := initial_props simple_libs plain_generator []\<rparr>"
  have i: "initializing simple_libs plain_generator = Inr ?g1"
  proof (rule initializing_eq)
    show "readJSON (fs plain_generator) (destinationPath plain_generator ''package.json'') [] = Inr []"
      by (simp add: readJSON_def plain_generator_def generator_at_def)
    show "filter_keywords [] = Inr []"
      by (simp add: filter_keywords_def get_Nil)
  qed
  have a: "\<not> isObject (get (pkg ?g1) ''author'')"
    by (simp add: get_Nil)
  have u: "get (initial_props simple_libs plain_generator []) ''name'' = JUndefined"
    by (simp add: initial_props_def get_Nil get_Cons)
  have c: "get (props (merge_answers simple_libs example_replies ?g1)) ''createDirectory'' = JBool True"
    and s: "get (props (merge_answers simple_libs example_replies ?g1)) ''serverType'' = JStr ''KoaJS''"
    using undetected_replies(5,1) [OF i a, of example_replies]
    by (simp_all add: props_askFor example_replies_def KoaJS_def)
  have m: "get (props (merge_answers simple_libs example_replies ?g1)) ''name'' = JStr ''My Cool App''"
    using u
    by (simp add: get_merge_answers map_of_prompts_name get_props_resolve_name
          plain_generator_def generator_at_def example_options_def example_replies_def get_Nil)
  have t: "truthy (get (props (merge_answers simple_libs example_replies ?g1)) ''createDirectory'')"
    by (simp add: c)
  have "case run simple_libs example_replies id [] plain_generator of
          Inl e \<Rightarrow> False | Inr gf \<Rightarrow> True"
    by code_simp
  then obtain gf where r: "run simple_libs example_replies id [] plain_generator = Inr gf"
    by (auto split: sum.splits)
  have n: "''/work/my-cool-app'' =
             destinationRoot plain_generator @ ''/''
               @ kebabCase simple_libs
                   (JStr (deburr simple_libs
                      (get (props (merge_answers simple_libs example_replies ?g1)) ''name'')))"
    by (subst m) (simp add: plain_generator_def generator_at_def simple_libs_def is_alnum_def lower_def)
  have e: "effects plain_generator = []"
    by (simp add: plain_generator_def generator_at_def)
  show ?thesis
    using relocation_before_store_and_manifest [OF i t r n s [symmetric]] r
    by (simp add: e)
qed

subsection \<open>Facts about the manifest\<close>

lemma distinct_clear_falsy:
  "distinct (map fst cur) \<Longrightarrow> distinct (map fst (clear_falsy cur))"
  by (simp add: clear_falsy_def scalar_fields_def distinct_update)

lemma get_clear_falsy:
  "get (clear_falsy cur) x =
     (if x \<in> set scalar_fields then js_or (get cur x) JUndefined else get cur x)"
  by (simp add: clear_falsy_def scalar_fields_def get_update)

lemma distinct_default_manifest: "distinct (map fst (default_manifest L g))"
  by (simp add: default_manifest_def)

lemma get_updatePkg:
  "get (updatePkg L g cur) x =
     (case map_of (default_manifest L g) x of
        None \<Rightarrow> get (clear_falsy cur) x
      | Some sv \<Rightarrow> defaults_val (get (clear_falsy cur) x) sv)"
  by (simp add: updatePkg_def get_defaults_obj distinct_default_manifest)

lemma distinct_updatePkg:
  "distinct (map fst cur) \<Longrightarrow> distinct (map fst (updatePkg L g cur))"
  by (simp add: updatePkg_def distinct_defaults_obj distinct_clear_falsy)

lemma defaults_val_keep: "ov \<noteq> JUndefined \<Longrightarrow> \<not> isObject ov \<Longrightarrow> defaults_val ov sv = ov"
  by (cases ov; cases sv) (simp_all add: defaults_val.simps)

lemma merge_val_assign: "v \<noteq> JUndefined \<Longrightarrow> \<not> isObject v \<Longrightarrow> merge_val ov v = v"
  by (cases v) simp_all

lemma get_combine_keywords:
  "combine_keywords kw p0 = Inr p1 \<Longrightarrow> x \<noteq> ''keywords'' \<Longrightarrow> get p1 x = get p0 x"
  by (auto simp: combine_keywords_def get_update split: if_splits jsval.splits)

lemma get_sortDep: "sortDep dep p = Inr p' \<Longrightarrow> x \<noteq> dep \<Longrightarrow> get p' x = get p x"
  by (auto simp: sortDep_def get_update split: jsval.splits)

lemma get_sortDeps: "sortDeps deps p = Inr p' \<Longrightarrow> x \<notin> set deps \<Longrightarrow> get p' x = get p x"
proof (induction deps arbitrary: p)
  case Nil
  then show ?case by simp
next
  case (Cons dep deps)
  from Cons.prems(1) obtain q where q: "sortDep dep p = Inr q" and r: "sortDeps deps q = Inr p'"
    by (auto split: sum.splits)
  from Cons.prems(2) have "x \<noteq> dep" and "x \<notin> set deps"
    by simp_all
  then show ?case
    using Cons.IH [OF r] get_sortDep [OF q] by simp
qed

lemma manifest_Inr:
  assumes "manifest L g d cur = Inr p"
  obtains p1 where
    "combine_keywords (get (props g) ''keywords'')
       (merge_obj (merge_obj [] d) (updatePkg L g cur)) = Inr p1"
    and "sortDeps dependency_groups p1 = Inr p"
  using assms by (auto simp: manifest_def split: sum.splits)

lemma get_manifest:
  assumes "manifest L g d cur = Inr p" and "distinct (map fst cur)"
    and "x \<noteq> ''keywords''" and "x \<notin> set dependency_groups"
  shows "get p x =
           (case map_of (updatePkg L g cur) x of
              None \<Rightarrow> get (merge_obj [] d) x
            | Some sv \<Rightarrow> merge_val (get (merge_obj [] d) x) sv)"
proof -
  from assms(1) obtain p1 where
    c: "combine_keywords (get (props g) ''keywords'')
          (merge_obj (merge_obj [] d) (updatePkg L g cur)) = Inr p1"
    and s: "sortDeps dependency_groups p1 = Inr p"
    by (rule manifest_Inr)
  have "get p x = get (merge_obj (merge_obj [] d) (updatePkg L g cur)) x"
    using get_sortDeps [OF s assms(4)] get_combine_keywords [OF c assms(3)] by simp
  then show ?thesis
    by (simp add: get_merge_obj distinct_updatePkg assms(2))
qed

lemma get_as_map_of: "get ob x = v \<Longrightarrow> v \<noteq> JUndefined \<Longrightarrow> map_of ob x = Some v"
  by (auto simp: get_def split: option.splits)

lemma scalar_kept:
  assumes "manifest L g d cur = Inr p" and "distinct (map fst cur)"
    and "x \<in> set scalar_fields" and "get cur x = v" and "truthy v" and "\<not> isObject v"
  shows "get p x = v"
proof -
  have nu: "v \<noteq> JUndefined"
    using assms(5) by auto
  have x: "x \<noteq> ''keywords''" "x \<notin> set dependency_groups"
    using assms(3) by (auto simp: scalar_fields_def dependency_groups_def)
  have "get (clear_falsy cur) x = v"
    using assms(3,4,5) by (simp add: get_clear_falsy js_or_def)
  then have "get (updatePkg L g cur) x = v"
    using nu assms(6) by (simp add: get_updatePkg defaults_val_keep split: option.splits)
  then have "map_of (updatePkg L g cur) x = Some v"
    using nu by (rule get_as_map_of)
  then show ?thesis
    using get_manifest [OF assms(1,2) x] nu assms(6) by (simp add: merge_val_assign)
qed

lemma same_value_zero_eq: "\<not> isObject v \<Longrightarrow> same_value_zero v w = (v = w)"
  by (cases v) simp_all

lemma baseUniq_distinct:
  "distinct (filter (\<lambda>v. \<not> isObject v) res) \<Longrightarrow>
   distinct (filter (\<lambda>v. \<not> isObject v) (baseUniq res xs))"
proof (induction xs arbitrary: res)
  case Nil
  then show ?case by simp
next
  case (Cons x xs)
  show ?case
  proof (cases "list_ex (same_value_zero x) res")
    case True
    then show ?thesis using Cons by simp
  next
    case False
    have "distinct (filter (\<lambda>v. \<not> isObject v) (res @ [x]))"
      using Cons.prems False by (auto simp: list_ex_iff same_value_zero_eq)
    then show ?thesis
      using Cons.IH False by simp
  qed
qed

lemma uniq_distinct: "distinct (filter (\<lambda>v. \<not> isObject v) (uniq xs))"
  by (simp add: uniq_def baseUniq_distinct)

lemma filter_truthy_swap:
  "filter (\<lambda>v. \<not> isObject v) (filter truthy xs) = filter truthy (filter (\<lambda>v. \<not> isObject v) xs)"
  by (induction xs) auto

lemma keywords_combined:
  assumes "get (props g) ''keywords'' = JArr ks" and "manifest L g d cur = Inr p"
  shows "get p ''keywords'' =
           JArr (filter truthy (uniq (concat_js ks
                   (get (merge_obj (merge_obj [] d) (updatePkg L g cur)) ''keywords''))))"
proof -
  from assms(2) obtain p1 where
    c: "combine_keywords (get (props g) ''keywords'')
          (merge_obj (merge_obj [] d) (updatePkg L g cur)) = Inr p1"
    and s: "sortDeps dependency_groups p1 = Inr p"
    by (rule manifest_Inr)
  have "get p ''keywords'' = get p1 ''keywords''"
    by (rule get_sortDeps [OF s]) (simp add: dependency_groups_def)
  moreover have "get p1 ''keywords'' =
           JArr (filter truthy (uniq (concat_js ks
                   (get (merge_obj (merge_obj [] d) (updatePkg L g cur)) ''keywords''))))"
    using c assms(1) by (auto simp: combine_keywords_def get_update)
  ultimately show ?thesis
    by simp
qed

subsection \<open>The manifest keeps what it has\<close>

lemma patch_keywords:
  "get (updatePkg L g cur) ''keywords'' =
     (if get cur ''keywords'' = JUndefined then JArr [] else get cur ''keywords'')"
  by (cases "get cur ''keywords''")
    (simp_all add: get_updatePkg get_clear_falsy scalar_fields_def default_manifest_def
       defaults_val.simps)

lemma patch_main:
  "get (updatePkg L g cur) ''main'' =
     (if truthy (get cur ''main'') then get cur ''main'' else get (default_manifest L g) ''main'')"
  by (cases "get cur ''main''")
    (simp_all add: get_updatePkg get_clear_falsy scalar_fields_def default_manifest_def
       defaults_val.simps js_or_def get_Cons)

lemma patch_files:
  "get cur ''files'' = JUndefined \<Longrightarrow>
     get (updatePkg L g cur) ''files'' = JArr [JStr (opt_projectRoot (options g))]"
  "get cur ''files'' = JArr (e # es) \<Longrightarrow> e \<noteq> JUndefined \<Longrightarrow>
     get (updatePkg L g cur) ''files'' = JArr (e # es)"
  by (cases e;
      simp add: get_updatePkg get_clear_falsy scalar_fields_def default_manifest_def
        defaults_val.simps)+

text \<open>
  C5 (amended). In the manifest that the writing phase writes, every field among name,
  version, description, homepage, main and license whose existing value is a non-empty
  string (or any other truthy scalar) is that value, whatever the prompts, the defaults
  and the template give. In the patch computed from the existing manifest, the keywords
  baseline is supplied only when keywords is absent; main is kept when it is truthy and
  takes the default otherwise; files is supplied when it is absent, and an existing
  non-empty list of files is kept as it is.
\<close>

theorem existing_manifest_values_kept:
  assumes "readJSON (fs g) (destinationPath g ''package.json'') [] = Inr cur"
    and "distinct (map fst cur)"
    and "writing L d g = Inr g'"
  shows "(\<exists>p. filter is_write (effects g')
                = filter is_write (effects g) @ [WriteJSON (destinationPath g ''package.json'') p]
              \<and> (\<forall>x \<in> set scalar_fields.
                    truthy (get cur x) \<and> \<not> isObject (get cur x) \<longrightarrow> get p x = get cur x))
       \<and> get (updatePkg L g cur) ''keywords''
           = (if get cur ''keywords'' = JUndefined then JArr [] else get cur ''keywords'')
       \<and> get (updatePkg L g cur) ''main''
           = (if truthy (get cur ''main'') then get cur ''main''
              else get (default_manifest L g) ''main'')
       \<and> (get cur ''files'' = JUndefined \<longrightarrow>
            get (updatePkg L g cur) ''files'' = JArr [JStr (opt_projectRoot (options g))])
       \<and> (\<forall>e es. get cur ''files'' = JArr (e # es) \<and> e \<noteq> JUndefined \<longrightarrow>
            get (updatePkg L g cur) ''files'' = JArr (e # es))"
proof -
  from assms(3) obtain cur' p where
    r: "readJSON (fs g) (destinationPath g ''package.json'') [] = Inr cur'"
    and m: "manifest L g d cur' = Inr p"
    and g': "g' = g\<lparr>effects := effects g @ write_ops g p\<rparr>"
    by (rule writing_Inr)
  from r assms(1) have c: "cur' = cur"
    by simp
  have w: "filter is_write (effects g')
             = filter is_write (effects g) @ [WriteJSON (destinationPath g ''package.json'') p]"
    by (simp add: g' writes_of_write_ops)
  have k: "\<forall>x \<in> set scalar_fields.
             truthy (get cur x) \<and> \<not> isObject (get cur x) \<longrightarrow> get p x = get cur x"
    using scalar_kept [OF m [unfolded c] assms(2)] by blast
  from w k patch_keywords patch_main patch_files show ?thesis
    by blast
qed

text \<open>
  Witness: the manifest's name and description win over the prompted and the template's
  values, and its files and main are kept.
\<close>

theorem existing_manifest_values_kept_witness:
  "\<exists>g' p. writing simple_libs template_manifest described_generator = Inr g'
     \<and> filter is_write (effects g') = [WriteJSON ''/work/package.json'' p]
     \<and> get p ''name'' = JStr ''kept-name''
     \<and> get p ''description'' = JStr ''kept description''
     \<and> get p ''main'' = JStr ''lib/main.js''
     \<and> get (updatePkg simple_libs described_generator described_manifest) ''keywords'' = JArr []
     \<and> get (updatePkg simple_libs described_generator described_manifest) ''main''
         = JStr ''lib/main.js''
     \<and> get (updatePkg simple_libs described_generator described_manifest) ''files''
         = JArr [JStr ''lib'']"
proof -
  have r: "readJSON (fs described_generator) (destinationPath described_generator ''package.json'') []
             = Inr described_manifest"
    by (simp add: readJSON_def described_generator_def generator_at_def destinationPath_def)
  have d: "distinct (map fst described_manifest)"
    by (simp add: described_manifest_def)
  have "case writing simple_libs template_manifest described_generator of
          Inl e \<Rightarrow> False | Inr g' \<Rightarrow> True"
    by code_simp
  then obtain g' where w: "writing simple_libs template_manifest described_generator = Inr g'"
    by (auto split: sum.splits)
  have v: "get described_manifest ''name'' = JStr ''kept-name''"
    "get described_manifest ''description'' = JStr ''kept description''"
    "get described_manifest ''main'' = JStr ''lib/main.js''"
    "get described_manifest ''files'' = JArr [JStr ''lib'']"
    "get described_manifest ''keywords'' = JUndefined"
    by (simp_all add: described_manifest_def get_Cons get_Nil)
  have e: "effects described_generator = []"
    and p: "destinationPath described_generator ''package.json'' = ''/work/package.json''"
    by (simp_all add: described_generator_def generator_at_def destinationPath_def)
  show ?thesis
    using existing_manifest_values_kept [OF r d w] w
    by (simp add: v e p scalar_fields_def) blast
qed

text \<open>
  The claim as stated fails: a manifest whose files are present as an empty list gets the
  default entry all the same, and a main that is present as an empty string is replaced
  by the default.
\<close>

theorem empty_files_get_the_default:
  "get [(''files'', JArr []), (''main'', JStr [])] ''files'' = JArr []
   \<and> get (updatePkg simple_libs described_generator [(''files'', JArr []), (''main'', JStr [])])
         ''files'' = JArr [JStr ''server'']
   \<and> get [(''files'', JArr []), (''main'', JStr [])] ''main'' = JStr []
   \<and> get (updatePkg simple_libs described_generator [(''files'', JArr []), (''main'', JStr [])])
         ''main'' = JStr ''server/index.js''"
  by (simp add: get_updatePkg get_clear_falsy scalar_fields_def default_manifest_def get_Cons
        defaults_val.simps described_generator_def generator_at_def example_options_def
        js_or_def simple_libs_def simple_join_def backslash_def)

subsection \<open>Keywords\<close>

text \<open>
  C6 (amended). Whenever the keywords question was answered, so that
  \<^verbatim>\<open>props.keywords\<close> is a list, the keywords written to the manifest hold no value
  twice (objects, which are never the same value, aside) and no falsy entry.
\<close>

theorem prompted_keywords_deduplicated:
  assumes "get (props g) ''keywords'' = JArr ks"
    and "writing L d g = Inr g'"
  shows "\<exists>p r. filter is_write (effects g')
                 = filter is_write (effects g) @ [WriteJSON (destinationPath g ''package.json'') p]
               \<and> get p ''keywords'' = JArr r
               \<and> distinct (filter (\<lambda>v. \<not> isObject v) r)
               \<and> list_all truthy r"
proof -
  from assms(2) obtain cur p where
    m: "manifest L g d cur = Inr p"
    and g': "g' = g\<lparr>effects := effects g @ write_ops g p\<rparr>"
    by (rule writing_Inr)
  let ?r = "filter truthy (uniq (concat_js ks
              (get (merge_obj (merge_obj [] d) (updatePkg L g cur)) ''keywords'')))"
  have "filter is_write (effects g')
          = filter is_write (effects g) @ [WriteJSON (destinationPath g ''package.json'') p]"
    by (simp add: g' writes_of_write_ops)
  moreover have "get p ''keywords'' = JArr ?r"
    by (rule keywords_combined [OF assms(1) m])
  moreover have "distinct (filter (\<lambda>v. \<not> isObject v) ?r)"
    unfolding filter_truthy_swap by (intro distinct_filter uniq_distinct)
  moreover have "list_all truthy ?r"
    by (simp add: list_all_iff)
  ultimately show ?thesis
    by blast
qed

text \<open>
  Witness: the manifest keywords web and ui with the answer \<open>ui, cache, cache\<close> give the
  keywords ui, cache and web, each once.
\<close>

theorem prompted_keywords_deduplicated_witness:
  "get (props keywords_generator) ''keywords'' = JArr [JStr ''ui'', JStr ''cache'', JStr ''cache'']
   \<and> (\<exists>g' p r. writing simple_libs [] keywords_generator = Inr g'
         \<and> filter is_write (effects g') = [WriteJSON ''/work/package.json'' p]
         \<and> get p ''keywords'' = JArr r
         \<and> set r = {JStr ''web'', JStr ''ui'', JStr ''cache''}
         \<and> distinct r \<and> list_all truthy r)"
proof -
  have k: "get (props keywords_generator) ''keywords''
             = JArr [JStr ''ui'', JStr ''cache'', JStr ''cache'']"
    by code_simp
  have c: "case writing simple_libs [] keywords_generator of
          Inl e \<Rightarrow> False
        | Inr g' \<Rightarrow>
            map (\<lambda>e. case e of WriteJSON path p \<Rightarrow> get p ''keywords'' | _ \<Rightarrow> JUndefined)
              (filter is_write (effects g'))
            = [JArr [JStr ''ui'', JStr ''cache'', JStr ''web'']]"
    by code_simp
  then obtain g' where w: "writing simple_libs [] keywords_generator = Inr g'"
    by (auto split: sum.splits)
  have e: "effects keywords_generator = []"
    and d: "destinationPath keywords_generator ''package.json'' = ''/work/package.json''"
    by (simp_all add: keywords_generator_def generator_at_def destinationPath_def)
  from prompted_keywords_deduplicated [OF k w] obtain p r where
    f: "filter is_write (effects g') = [WriteJSON ''/work/package.json'' p]"
    and r: "get p ''keywords'' = JArr r"
    by (auto simp: e d)
  from c w f r have "r = [JStr ''ui'', JStr ''cache'', JStr ''web'']"
    by simp
  moreover have "set [JStr ''ui'', JStr ''cache'', JStr ''web'']
                   = {JStr ''web'', JStr ''ui'', JStr ''cache''}"
    by auto
  ultimately show ?thesis
    using k w f r by auto
qed

text \<open>
  The claim as stated fails: when the manifest already has keywords the question is not
  asked, and the manifest's keywords are written as they are, here with \<open>ui\<close> twice and
  an empty entry.
\<close>

theorem unprompted_keywords_written_as_they_are:
  "\<exists>gf p. run simple_libs example_replies id [] (generator_at repeated_keywords_fs) = Inr gf
     \<and> WriteJSON ''/work/package.json'' p \<in> set (effects gf)
     \<and> get p ''keywords'' = JArr [JStr ''ui'', JStr ''ui'', JStr []]"
proof -
  have "case run simple_libs example_replies id [] (generator_at repeated_keywords_fs) of
          Inl e \<Rightarrow> False
        | Inr gf \<Rightarrow>
            list_ex (\<lambda>e. case e of
                            WriteJSON path p \<Rightarrow>
                              path = ''/work/package.json''
                              \<and> get p ''keywords'' = JArr [JStr ''ui'', JStr ''ui'', JStr []]
                          | _ \<Rightarrow> False)
              (effects gf)"
    by code_simp
  then obtain gf where
    r: "run simple_libs example_replies id [] (generator_at repeated_keywords_fs) = Inr gf"
    and l: "list_ex (\<lambda>e. case e of
                            WriteJSON path p \<Rightarrow>
                              path = ''/work/package.json''
                              \<and> get p ''keywords'' = JArr [JStr ''ui'', JStr ''ui'', JStr []]
                          | _ \<Rightarrow> False)
              (effects gf)"
    by (auto split: sum.splits)
  from l obtain e where e: "e \<in> set (effects gf)"
    and c: "case e of
              WriteJSON path p \<Rightarrow>
                path = ''/work/package.json''
                \<and> get p ''keywords'' = JArr [JStr ''ui'', JStr ''ui'', JStr []]
            | _ \<Rightarrow> False"
    by (auto simp: list_ex_iff)
  from c obtain p where "e = WriteJSON ''/work/package.json'' p"
    and "get p ''keywords'' = JArr [JStr ''ui'', JStr ''ui'', JStr []]"
    by (cases e) auto
  with r e show ?thesis
    by blast
qed

subsection \<open>Sorting the dependency groups\<close>

lemma set_own_property_order: "set (own_property_order ks) = set ks"
  by (auto simp: own_property_order_def)

lemma own_property_order_plain:
  "\<not> list_ex is_array_index ks \<Longrightarrow> own_property_order ks = ks"
  by (simp add: own_property_order_def list_ex_iff filter_empty_conv [THEN iffD2])

lemma keys_pick: "map fst (pick d ks) = own_property_order ks"
  by (simp add: pick_def comp_def)

lemma get_map_keys:
  "get (map (\<lambda>k. (k, f k)) ks) k = (if k \<in> set ks then f k else JUndefined)"
  by (induction ks) (auto simp: get_Cons get_Nil)

lemma get_pick: "get (pick d ks) k = (if k \<in> set ks then get d k else JUndefined)"
  by (simp add: pick_def get_map_keys set_own_property_order)

text \<open>
  A dependency group that is a mapping is written with the same entries and with its
  keys in JavaScript's own order of the sorted keys, which is the sorted order when no
  key is an array index; a group that is absent or a string, a number or a boolean is
  left as it is.
\<close>

theorem sortDep_sorts_mapping:
  assumes "get p dep = JObj d"
  shows "\<exists>p' d'. sortDep dep p = Inr p' \<and> get p' dep = JObj d'
           \<and> map fst d' = own_property_order (sort (map fst d))
           \<and> (\<not> list_ex is_array_index (map fst d) \<longrightarrow> map fst d' = sort (map fst d))
           \<and> (\<forall>k. get d' k = get d k)"
proof -
  let ?d' = "pick d (sort (map fst d))"
  have "sortDep dep p = Inr (AList.update dep (JObj ?d') p)"
    using assms by (simp add: sortDep_def)
  moreover have "get (AList.update dep (JObj ?d') p) dep = JObj ?d'"
    by (simp add: get_update)
  moreover have "map fst ?d' = own_property_order (sort (map fst d))"
    by (rule keys_pick)
  moreover have "map fst ?d' = sort (map fst d)" if "\<not> list_ex is_array_index (map fst d)"
  proof -
    from that have "\<not> list_ex is_array_index (sort (map fst d))"
      by (simp add: list_ex_iff)
    then show ?thesis
      by (simp add: keys_pick own_property_order_plain)
  qed
  moreover have "get ?d' k = get d k" for k
  proof (cases "k \<in> fst ` set d")
    case True
    then show ?thesis by (simp add: get_pick)
  next
    case False
    then have "get d k = JUndefined"
      by (simp add: get_def map_of_eq_None_iff [THEN iffD2])
    then show ?thesis
      using False by (simp add: get_pick)
  qed
  ultimately show ?thesis
    by blast
qed

theorem sortDep_example:
  "sortDep ''dependencies''
     [(''dependencies'', JObj [(''zeta'', JStr ''1''), (''alpha'', JStr ''2''), (''mu'', JStr ''3'')])]
   = Inr [(''dependencies'',
           JObj [(''alpha'', JStr ''2''), (''mu'', JStr ''3''), (''zeta'', JStr ''1'')])]"
  by code_simp

theorem sortDep_index_keys_example:
  "sortDep ''dependencies''
     [(''dependencies'', JObj [(''x'', JStr ''1''), (''10'', JStr ''2''), (''a'', JStr ''3''),
                               (''9'', JStr ''4'')])]
   = Inr [(''dependencies'',
           JObj [(''9'', JStr ''4''), (''10'', JStr ''2''), (''a'', JStr ''3''),
                 (''x'', JStr ''1'')])]"
  by code_simp

theorem sortDep_leaves_scalars:
  assumes "get p dep = JUndefined \<or> get p dep = JStr s \<or> get p dep = JNum n \<or> get p dep = JBool b"
  shows "sortDep dep p = Inr p"
  using assms by (auto simp: sortDep_def)

text \<open>
  C8. The claim that a group which is not a mapping is left untouched fails on the
  code: \<^verbatim>\<open>typeof null\<close> is \<^verbatim>\<open>"object"\<close>, so for a manifest whose dependencies are
  \<^verbatim>\<open>null\<close> the writing phase calls \<^verbatim>\<open>Object.keys(null)\<close> and the run ends with a
  TypeError instead of a written manifest.
\<close>

theorem null_dependencies_throw:
  "run simple_libs example_replies id [] (generator_at null_dependencies_fs) = Inl TypeError"
proof -
  have "case run simple_libs example_replies id [] (generator_at null_dependencies_fs) of
          Inl e \<Rightarrow> e = TypeError | Inr gf \<Rightarrow> False"
    by code_simp
  then show ?thesis
    by (auto split: sum.splits)
qed

subsection \<open>The parser cannot make a run fail\<close>

lemma failure_rel_sum: "rel_sum (=) R x y \<Longrightarrow> failure x = failure y"
  by (cases x; cases y) simp_all

lemma same_but_refl: "same_but K a a"
  by (simp add: same_but_def list_all2_same)

lemma same_but_get: "same_but K a b \<Longrightarrow> k \<notin> K \<Longrightarrow> get a k = get b k"
  unfolding same_but_def
  by (induction a b rule: list_all2_induct) (auto simp: get_def)

lemma same_but_update:
  "same_but K a b \<Longrightarrow> k \<in> K \<or> v = v' \<Longrightarrow>
   same_but K (AList.update k v a) (AList.update k v' b)"
  unfolding same_but_def
  by (induction a b rule: list_all2_induct) auto

lemma same_but_defaults_obj:
  assumes "same_but K src src'" and "same_but K dst dst'"
  shows "same_but K (defaults_obj dst src) (defaults_obj dst' src')"
  using assms unfolding same_but_def [of K src src']
proof (induction src src' arbitrary: dst dst' rule: list_all2_induct)
  case Nil
  then show ?case by simp
next
  case (Cons x xs y ys)
  obtain k sv where x: "x = (k, sv)" by (cases x)
  obtain k' sv' where y: "y = (k', sv')" by (cases y)
  from Cons(1) x y have k: "k' = k" and v: "k \<in> K \<or> sv = sv'"
    by auto
  have "k \<in> K \<or> defaults_val (get dst k) sv = defaults_val (get dst' k) sv'"
    using v same_but_get [OF Cons.prems, of k] by (cases "k \<in> K") auto
  then have "same_but K (AList.update k (defaults_val (get dst k) sv) dst)
               (AList.update k (defaults_val (get dst' k) sv') dst')"
    by (rule same_but_update [OF Cons.prems])
  then show ?case
    using Cons.IH by (simp add: x y k)
qed

lemma same_but_merge_obj:
  assumes "same_but K src src'" and "same_but K dst dst'"
  shows "same_but K (merge_obj dst src) (merge_obj dst' src')"
  using assms unfolding same_but_def [of K src src']
proof (induction src src' arbitrary: dst dst' rule: list_all2_induct)
  case Nil
  then show ?case by simp
next
  case (Cons x xs y ys)
  obtain k sv where x: "x = (k, sv)" by (cases x)
  obtain k' sv' where y: "y = (k', sv')" by (cases y)
  from Cons(1) x y have k: "k' = k" and v: "k \<in> K \<or> sv = sv'"
    by auto
  have "k \<in> K \<or> merge_val (get dst k) sv = merge_val (get dst' k) sv'"
    using v same_but_get [OF Cons.prems, of k] by (cases "k \<in> K") auto
  then have "same_but K (AList.update k (merge_val (get dst k) sv) dst)
               (AList.update k (merge_val (get dst' k) sv') dst')"
    by (rule same_but_update [OF Cons.prems])
  then show ?case
    using Cons.IH by (simp add: x y k)
qed

lemma agree_fields:
  assumes "agree a b"
  shows "options a = options b" and "destinationRoot a = destinationRoot b"
    and "fs a = fs b" and "pkg a = pkg b"
  using assms unfolding agree_def by blast+

lemma agree_props: "agree a b \<Longrightarrow> k \<notin> author_fields \<Longrightarrow> get (props a) k = get (props b) k"
  unfolding agree_def by blast

lemma agreeI:
  assumes "options a = options b" and "destinationRoot a = destinationRoot b"
    and "fs a = fs b" and "pkg a = pkg b"
    and "\<And>k. k \<notin> author_fields \<Longrightarrow> get (props a) k = get (props b) k"
  shows "agree a b"
  using assms unfolding agree_def by blast

lemma not_author_fields:
  "''name'' \<notin> author_fields" "''description'' \<notin> author_fields"
  "''homepage'' \<notin> author_fields" "''serverType'' \<notin> author_fields"
  "''keywords'' \<notin> author_fields" "''pwa'' \<notin> author_fields"
  "''autoSsr'' \<notin> author_fields" "''quoteType'' \<notin> author_fields"
  "''createDirectory'' \<notin> author_fields"
  by (simp_all add: author_fields_def)

lemma same_but_combine_keywords:
  assumes "same_but K p p'" and "''keywords'' \<notin> K"
  shows "rel_sum (=) (same_but K) (combine_keywords kw p) (combine_keywords kw p')"
proof -
  have g: "get p ''keywords'' = get p' ''keywords''"
    by (rule same_but_get [OF assms])
  show ?thesis
    by (cases kw) (simp_all add: combine_keywords_def g same_but_update assms(1))
qed

lemma same_but_sortDep:
  assumes "same_but K p p'" and "dep \<notin> K"
  shows "rel_sum (=) (same_but K) (sortDep dep p) (sortDep dep p')"
proof -
  have g: "get p dep = get p' dep"
    by (rule same_but_get [OF assms])
  show ?thesis
    by (cases "get p' dep") (simp_all add: sortDep_def g same_but_update assms(1))
qed

lemma same_but_sortDeps:
  assumes "same_but K p p'" and "set deps \<inter> K = {}"
  shows "rel_sum (=) (same_but K) (sortDeps deps p) (sortDeps deps p')"
  using assms
proof (induction deps arbitrary: p p')
  case Nil
  then show ?case by simp
next
  case (Cons dep deps)
  from Cons.prems(2) have d: "dep \<notin> K" and ds: "set deps \<inter> K = {}"
    by auto
  from same_but_sortDep [OF Cons.prems(1) d] show ?case
    by (cases "sortDep dep p"; cases "sortDep dep p'") (simp_all add: Cons.IH ds)
qed

lemma same_but_default_manifest:
  assumes "agree a b"
    and "kebabCase L' = kebabCase L" and "path_join L' = path_join L"
  shows "same_but {''author''} (default_manifest L a) (default_manifest L' b)"
proof -
  note p = agree_props [OF assms(1)]
  show ?thesis
    by (simp add: default_manifest_def same_but_def agree_fields(1) [OF assms(1)] assms(2,3)
          p [OF not_author_fields(1)] p [OF not_author_fields(2)] p [OF not_author_fields(3)])
qed

lemma failure_manifest:
  assumes "agree a b"
    and "kebabCase L' = kebabCase L" and "path_join L' = path_join L"
  shows "failure (manifest L a d cur) = failure (manifest L' b d cur)"
proof -
  let ?K = "{''author''}"
  let ?ma = "merge_obj (merge_obj [] d) (updatePkg L a cur)"
  let ?mb = "merge_obj (merge_obj [] d) (updatePkg L' b cur)"
  let ?kw = "get (props b) ''keywords''"
  have kw: "get (props a) ''keywords'' = ?kw"
    by (rule agree_props [OF assms(1) not_author_fields(5)])
  have "same_but ?K (updatePkg L a cur) (updatePkg L' b cur)"
    unfolding updatePkg_def
    by (rule same_but_defaults_obj [OF same_but_default_manifest [OF assms] same_but_refl])
  then have m: "same_but ?K ?ma ?mb"
    by (rule same_but_merge_obj [OF _ same_but_refl])
  have c: "rel_sum (=) (same_but ?K) (combine_keywords ?kw ?ma) (combine_keywords ?kw ?mb)"
    by (rule same_but_combine_keywords [OF m]) simp
  have ma: "manifest L a d cur =
              (case combine_keywords ?kw ?ma of Inl e \<Rightarrow> Inl e
               | Inr p \<Rightarrow> sortDeps dependency_groups p)"
    and mb: "manifest L' b d cur =
              (case combine_keywords ?kw ?mb of Inl e \<Rightarrow> Inl e
               | Inr p \<Rightarrow> sortDeps dependency_groups p)"
    unfolding manifest_def kw by (rule refl)+
  show ?thesis
  proof (cases "combine_keywords ?kw ?ma")
    case (Inl e)
    with c have "combine_keywords ?kw ?mb = Inl e"
      by (cases "combine_keywords ?kw ?mb") simp_all
    with Inl show ?thesis
      unfolding ma mb by simp
  next
    case (Inr q)
    with c obtain q' where q': "combine_keywords ?kw ?mb = Inr q'" and s: "same_but ?K q q'"
      by (cases "combine_keywords ?kw ?mb") simp_all
    have "set dependency_groups \<inter> ?K = {}"
      by (simp add: dependency_groups_def)
    from failure_rel_sum [OF same_but_sortDeps [OF s this]] Inr q' show ?thesis
      unfolding ma mb by simp
  qed
qed

lemma failure_writing:
  assumes "agree a b"
    and "kebabCase L' = kebabCase L" and "path_join L' = path_join L"
  shows "failure (writing L d a) = failure (writing L' d b)"
proof -
  let ?rd = "readJSON (fs b) (destinationPath b ''package.json'') []"
  have r: "readJSON (fs a) (destinationPath a ''package.json'') [] = ?rd"
    by (simp add: agree_fields [OF assms(1)] destinationPath_def)
  have wa: "writing L d a =
              (case ?rd of Inl e \<Rightarrow> Inl e
               | Inr cur \<Rightarrow>
                   (case manifest L a d cur of Inl e \<Rightarrow> Inl e
                    | Inr p \<Rightarrow> Inr (a\<lparr>effects := effects a @ write_ops a p\<rparr>)))"
    unfolding writing_def r by (rule refl)
  have wb: "writing L' d b =
              (case ?rd of Inl e \<Rightarrow> Inl e
               | Inr cur \<Rightarrow>
                   (case manifest L' b d cur of Inl e \<Rightarrow> Inl e
                    | Inr p \<Rightarrow> Inr (b\<lparr>effects := effects b @ write_ops b p\<rparr>)))"
    unfolding writing_def by (rule refl)
  show ?thesis
  proof (cases ?rd)
    case (Inl e)
    then show ?thesis unfolding wa wb by simp
  next
    case (Inr cur)
    from failure_manifest [OF assms, of d cur] show ?thesis
      unfolding wa wb Inr
      by (cases "manifest L a d cur"; cases "manifest L' b d cur") simp_all
  qed
qed

lemma initial_props_off_author:
  "k \<notin> author_fields \<Longrightarrow> get (initial_props L g p) k = get (initial_props L' g p) k"
  by (cases "get p ''author''")
    (simp_all add: initial_props_def author_fields_def assign_def get_update get_Cons get_Nil Let_def)

lemma agree_initializing:
  "rel_sum (=) agree (initializing L g) (initializing L' g)"
proof (cases "readJSON (fs g) (destinationPath g ''package.json'') []")
  case (Inl e)
  then show ?thesis by (simp add: initializing_def)
next
  case (Inr p0)
  show ?thesis
  proof (cases "filter_keywords p0")
    case (Inl e)
    then show ?thesis by (simp add: initializing_def Inr)
  next
    case (Inr p)
    have "agree (g\<lparr>pkg := p, props := initial_props L g p\<rparr>)
            (g\<lparr>pkg := p, props := initial_props L' g p\<rparr>)"
      by (rule agreeI) (simp_all add: initial_props_off_author [of _ L g p L'])
    then show ?thesis
      by (simp add: initializing_def \<open>readJSON (fs g) (destinationPath g ''package.json'') [] = Inr p0\<close>
            Inr)
  qed
qed

lemma agree_resolve_name:
  assumes "agree a b" and "kebabCase L' = kebabCase L"
  shows "agree (resolve_name L a) (resolve_name L' b)"
proof (rule agreeI)
  show "options (resolve_name L a) = options (resolve_name L' b)"
    and "destinationRoot (resolve_name L a) = destinationRoot (resolve_name L' b)"
    and "fs (resolve_name L a) = fs (resolve_name L' b)"
    and "pkg (resolve_name L a) = pkg (resolve_name L' b)"
    by (simp_all add: resolve_name_def agree_fields [OF assms(1)])
  fix k
  assume "k \<notin> author_fields"
  then show "get (props (resolve_name L a)) k = get (props (resolve_name L' b)) k"
    by (auto simp: get_props_resolve_name agree_fields [OF assms(1)] assms(2)
          agree_props [OF assms(1)])
qed


lemma map_of_prompts_agree:
  assumes "agree a b" and "k \<notin> author_fields"
  shows "map_of (prompts r a) k = map_of (prompts r b) k"
proof -
  note p = agree_props [OF assms(1)]
  show ?thesis
    using assms(2)
    by (simp add: prompts_def agree_fields(4) [OF assms(1)] author_fields_def
          p [OF not_author_fields(1)] p [OF not_author_fields(2)] p [OF not_author_fields(3)]
          p [OF not_author_fields(4)] p [OF not_author_fields(6)] p [OF not_author_fields(7)]
          p [OF not_author_fields(8)] p [OF not_author_fields(9)])
qed

lemma agree_merge_answers:
  assumes "agree a b" and "kebabCase L' = kebabCase L"
  shows "agree (merge_answers L r a) (merge_answers L' r b)"
proof (rule agreeI)
  note n = agree_resolve_name [OF assms]
  have f: "options (merge_answers L r a) = options (resolve_name L a)"
    "destinationRoot (merge_answers L r a) = destinationRoot (resolve_name L a)"
    "fs (merge_answers L r a) = fs (resolve_name L a)"
    "pkg (merge_answers L r a) = pkg (resolve_name L a)" for L a
    by (simp_all add: merge_answers_def Let_def)
  show "options (merge_answers L r a) = options (merge_answers L' r b)"
    and "destinationRoot (merge_answers L r a) = destinationRoot (merge_answers L' r b)"
    and "fs (merge_answers L r a) = fs (merge_answers L' r b)"
    and "pkg (merge_answers L r a) = pkg (merge_answers L' r b)"
    by (simp_all add: f agree_fields [OF n])
  fix k
  assume k: "k \<notin> author_fields"
  have eq: "get (props (resolve_name L a)) k = get (props (resolve_name L' b)) k"
    by (rule agree_props [OF n k])
  show "get (props (merge_answers L r a)) k = get (props (merge_answers L' r b)) k"
    unfolding get_merge_answers map_of_prompts_agree [OF n k] eq ..
qed

lemma agree_askFor:
  assumes "agree a b" and "kebabCase L' = kebabCase L" and "deburr L' = deburr L"
  shows "agree (askFor L r a) (askFor L' r b)"
proof (rule agreeI)
  note m = agree_merge_answers [OF assms(1,2), of r]
  have c: "get (props (merge_answers L r a)) ''createDirectory''
             = get (props (merge_answers L' r b)) ''createDirectory''"
    and nm: "get (props (merge_answers L r a)) ''name'' = get (props (merge_answers L' r b)) ''name''"
    by (rule agree_props [OF m not_author_fields(9)], rule agree_props [OF m not_author_fields(1)])
  have n: "newRoot L (merge_answers L r a) = newRoot L' (merge_answers L' r b)"
    by (simp add: newRoot_def nm agree_fields(2) [OF m] assms(2,3))
  show "options (askFor L r a) = options (askFor L' r b)"
    and "destinationRoot (askFor L r a) = destinationRoot (askFor L' r b)"
    and "fs (askFor L r a) = fs (askFor L' r b)"
    and "pkg (askFor L r a) = pkg (askFor L' r b)"
    by (simp_all add: askFor_def Let_def relocate_def config_set_def c n agree_fields [OF m])
  fix k
  assume "k \<notin> author_fields"
  then show "get (props (askFor L r a)) k = get (props (askFor L' r b)) k"
    by (simp add: props_askFor agree_props [OF m])
qed

lemma failure_run:
  assumes "kebabCase L' = kebabCase L" and "deburr L' = deburr L" and "path_join L' = path_join L"
  shows "failure (run L' r others d g) = failure (run L r others d g)"
proof (cases "initializing L g")
  case (Inl e)
  with agree_initializing [of L g L'] have "initializing L' g = Inl e"
    by (cases "initializing L' g") simp_all
  with Inl show ?thesis
    by (simp add: run_def)
next
  case (Inr g1)
  with agree_initializing [of L g L'] obtain g1' where i: "initializing L' g = Inr g1'"
    and a: "agree g1 g1'"
    by (cases "initializing L' g") simp_all
  let ?a = "(askFor L r g1)\<lparr>fs := others (fs (askFor L r g1))\<rparr>"
  let ?b = "(askFor L' r g1')\<lparr>fs := others (fs (askFor L' r g1'))\<rparr>"
  note k = agree_askFor [OF a assms(1,2), of r]
  have "agree ?a ?b"
    by (rule agreeI) (simp_all add: agree_fields [OF k] agree_props [OF k])
  from failure_writing [OF this assms(1,3), of d] show ?thesis
    by (cases "writing L d ?a"; cases "writing L' d ?b") (simp_all add: run_def Let_def Inr i)
qed

subsection \<open>A free-text author\<close>

lemma author_question:
  "truthy (get (props g) ''authorName'') \<Longrightarrow>
     ''authorName'' \<notin> set (asked L r g)
     \<and> get (props (askFor L r g)) ''authorName'' = get (props g) ''authorName''"
  "\<not> truthy (get (props g) ''authorName'') \<Longrightarrow>
     ''authorName'' \<in> set (asked L r g)
     \<and> get (props (askFor L r g)) ''authorName'' = JStr (reply_authorName r)"
  "truthy (get (props g) ''authorEmail'') \<Longrightarrow>
     ''authorEmail'' \<notin> set (asked L r g)
     \<and> get (props (askFor L r g)) ''authorEmail'' = get (props g) ''authorEmail''"
  "\<not> truthy (get (props g) ''authorEmail'') \<Longrightarrow>
     ''authorEmail'' \<in> set (asked L r g)
     \<and> get (props (askFor L r g)) ''authorEmail'' = JStr (reply_authorEmail r)"
  "truthy (get (props g) ''authorUrl'') \<Longrightarrow>
     ''authorUrl'' \<notin> set (asked L r g)
     \<and> get (props (askFor L r g)) ''authorUrl'' = get (props g) ''authorUrl''"
  "\<not> truthy (get (props g) ''authorUrl'') \<Longrightarrow>
     ''authorUrl'' \<in> set (asked L r g)
     \<and> get (props (askFor L r g)) ''authorUrl'' = JStr (reply_authorUrl r)"
  by (simp_all add: asked_iff props_askFor get_merge_answers map_of_prompts
        get_props_resolve_name)

text \<open>
  C9. When the manifest's author is a string, \<^verbatim>\<open>initializing\<close> succeeds whatever the
  string is and whatever the parser makes of it (given that the manifest itself can be
  read and its keywords filtered), and the author's name, email and url are what the
  parser produced. A part that the parser produced (a truthy value) is not asked for and
  \<^verbatim>\<open>askFor\<close> keeps it; a part that it did not produce is asked for, and the answer
  becomes its value. What the parser returns has no bearing on whether the run fails: with
  any other parser in its place the run ends with the same error or with none.
\<close>

theorem author_string_parsed_or_prompted:
  assumes "readJSON (fs g) (destinationPath g ''package.json'') [] = Inr p0"
    and "filter_keywords p0 = Inr p"
    and "get p0 ''author'' = JStr s"
  shows "(\<exists>g'. initializing L g = Inr g'
           \<and> get (props g') ''authorName'' = get (parseAuthor L s) ''name''
           \<and> get (props g') ''authorEmail'' = get (parseAuthor L s) ''email''
           \<and> get (props g') ''authorUrl'' = get (parseAuthor L s) ''url''
           \<and> (if truthy (get (parseAuthor L s) ''name'')
               then ''authorName'' \<notin> set (asked L r g')
                    \<and> get (props (askFor L r g')) ''authorName'' = get (parseAuthor L s) ''name''
               else ''authorName'' \<in> set (asked L r g')
                    \<and> get (props (askFor L r g')) ''authorName'' = JStr (reply_authorName r))
           \<and> (if truthy (get (parseAuthor L s) ''email'')
               then ''authorEmail'' \<notin> set (asked L r g')
                    \<and> get (props (askFor L r g')) ''authorEmail'' = get (parseAuthor L s) ''email''
               else ''authorEmail'' \<in> set (asked L r g')
                    \<and> get (props (askFor L r g')) ''authorEmail'' = JStr (reply_authorEmail r))
           \<and> (if truthy (get (parseAuthor L s) ''url'')
               then ''authorUrl'' \<notin> set (asked L r g')
                    \<and> get (props (askFor L r g')) ''authorUrl'' = get (parseAuthor L s) ''url''
               else ''authorUrl'' \<in> set (asked L r g')
                    \<and> get (props (askFor L r g')) ''authorUrl'' = JStr (reply_authorUrl r)))
       \<and> (\<forall>L'. kebabCase L' = kebabCase L \<and> deburr L' = deburr L \<and> path_join L' = path_join L
             \<longrightarrow> failure (run L' r others d g) = failure (run L r others d g))"
proof
  let ?g' = "g\<lparr>pkg := p, props := initial_props L g p\<rparr>"
  note pa = parsed_author [OF assms refl, of L]
  have i: "initializing L g = Inr ?g'"
    by (rule pa(1))
  have n: "get (props ?g') ''authorName'' = get (parseAuthor L s) ''name''"
    and e: "get (props ?g') ''authorEmail'' = get (parseAuthor L s) ''email''"
    and u: "get (props ?g') ''authorUrl'' = get (parseAuthor L s) ''url''"
    by (rule pa(2) pa(3) pa(4))+
  have qn: "if truthy (get (parseAuthor L s) ''name'')
               then ''authorName'' \<notin> set (asked L r ?g')
                    \<and> get (props (askFor L r ?g')) ''authorName'' = get (parseAuthor L s) ''name''
               else ''authorName'' \<in> set (asked L r ?g')
                    \<and> get (props (askFor L r ?g')) ''authorName'' = JStr (reply_authorName r)"
    using author_question(1,2) [of ?g' L r] unfolding n by (simp split: if_splits)
  have qe: "if truthy (get (parseAuthor L s) ''email'')
               then ''authorEmail'' \<notin> set (asked L r ?g')
                    \<and> get (props (askFor L r ?g')) ''authorEmail'' = get (parseAuthor L s) ''email''
               else ''authorEmail'' \<in> set (asked L r ?g')
                    \<and> get (props (askFor L r ?g')) ''authorEmail'' = JStr (reply_authorEmail r)"
    using author_question(3,4) [of ?g' L r] unfolding e by (simp split: if_splits)
  have qu: "if truthy (get (parseAuthor L s) ''url'')
               then ''authorUrl'' \<notin> set (asked L r ?g')
                    \<and> get (props (askFor L r ?g')) ''authorUrl'' = get (parseAuthor L s) ''url''
               else ''authorUrl'' \<in> set (asked L r ?g')
                    \<and> get (props (askFor L r ?g')) ''authorUrl'' = JStr (reply_authorUrl r)"
    using author_question(5,6) [of ?g' L r] unfolding u by (simp split: if_splits)
  from i n e u qn qe qu
  show "\<exists>g'. initializing L g = Inr g'
           \<and> get (props g') ''authorName'' = get (parseAuthor L s) ''name''
           \<and> get (props g') ''authorEmail'' = get (parseAuthor L s) ''email''
           \<and> get (props g') ''authorUrl'' = get (parseAuthor L s) ''url''
           \<and> (if truthy (get (parseAuthor L s) ''name'')
               then ''authorName'' \<notin> set (asked L r g')
                    \<and> get (props (askFor L r g')) ''authorName'' = get (parseAuthor L s) ''name''
               else ''authorName'' \<in> set (asked L r g')
                    \<and> get (props (askFor L r g')) ''authorName'' = JStr (reply_authorName r))
           \<and> (if truthy (get (parseAuthor L s) ''email'')
               then ''authorEmail'' \<notin> set (asked L r g')
                    \<and> get (props (askFor L r g')) ''authorEmail'' = get (parseAuthor L s) ''email''
               else ''authorEmail'' \<in> set (asked L r g')
                    \<and> get (props (askFor L r g')) ''authorEmail'' = JStr (reply_authorEmail r))
           \<and> (if truthy (get (parseAuthor L s) ''url'')
               then ''authorUrl'' \<notin> set (asked L r g')
                    \<and> get (props (askFor L r g')) ''authorUrl'' = get (parseAuthor L s) ''url''
               else ''authorUrl'' \<in> set (asked L r g')
                    \<and> get (props (askFor L r g')) ''authorUrl'' = JStr (reply_authorUrl r))"
    by (intro exI [of _ ?g'] conjI)
next
  show "\<forall>L'. kebabCase L' = kebabCase L \<and> deburr L' = deburr L \<and> path_join L' = path_join L
             \<longrightarrow> failure (run L' r others d g) = failure (run L r others d g)"
    using failure_run by blast
qed

text \<open>
  Witness: the author \<open>Jane Doe\<close> gives a name, which is kept and not asked for, and
  neither email nor url, which are asked for; the run succeeds, and so it does with a
  parser that produces nothing at all.
\<close>

theorem author_string_parsed_or_prompted_witness:
  "(\<exists>g'. initializing simple_libs (generator_at string_author_fs) = Inr g'
     \<and> get (props g') ''authorName'' = JStr ''Jane Doe''
     \<and> ''authorName'' \<notin> set (asked simple_libs example_replies g')
     \<and> get (props (askFor simple_libs example_replies g')) ''authorName'' = JStr ''Jane Doe''
     \<and> get (props g') ''authorEmail'' = JUndefined
     \<and> ''authorEmail'' \<in> set (asked simple_libs example_replies g')
     \<and> get (props (askFor simple_libs example_replies g')) ''authorEmail'' = JStr ''jane@x.org''
     \<and> ''authorUrl'' \<in> set (asked simple_libs example_replies g')
     \<and> get (props (askFor simple_libs example_replies g')) ''authorUrl'' = JStr ''http://jane.x.org'')
   \<and> failure (run simple_libs example_replies id [] (generator_at string_author_fs)) = None
   \<and> failure (run (simple_libs\<lparr>parseAuthor := \<lambda>s. []\<rparr>) example_replies id []
                (generator_at string_author_fs)) = None"
proof -
  have a: "get string_author_manifest ''author'' = JStr ''Jane Doe''"
    by (simp add: string_author_manifest_def get_Cons)
  have p: "parseAuthor simple_libs ''Jane Doe'' = [(''name'', JStr ''Jane Doe'')]"
    by (simp add: simple_libs_def simple_author_def)
  note t = author_string_parsed_or_prompted
      [OF read_string_author keywords_string_author a, of simple_libs example_replies id "[]"]
  have "case run simple_libs example_replies id [] (generator_at string_author_fs) of
          Inl e \<Rightarrow> False | Inr gf \<Rightarrow> True"
    by code_simp
  then have ok: "failure (run simple_libs example_replies id [] (generator_at string_author_fs)) = None"
    by (auto split: sum.splits)
  from t have "\<forall>L'. kebabCase L' = kebabCase simple_libs \<and> deburr L' = deburr simple_libs
               \<and> path_join L' = path_join simple_libs
             \<longrightarrow> failure (run L' example_replies id [] (generator_at string_author_fs))
                 = failure (run simple_libs example_replies id [] (generator_at string_author_fs))"
    by (rule conjunct2)
  then have "kebabCase (simple_libs\<lparr>parseAuthor := \<lambda>s. []\<rparr>) = kebabCase simple_libs
               \<and> deburr (simple_libs\<lparr>parseAuthor := \<lambda>s. []\<rparr>) = deburr simple_libs
               \<and> path_join (simple_libs\<lparr>parseAuthor := \<lambda>s. []\<rparr>) = path_join simple_libs
             \<longrightarrow> failure (run (simple_libs\<lparr>parseAuthor := \<lambda>s. []\<rparr>) example_replies id []
                            (generator_at string_author_fs))
                 = failure (run simple_libs example_replies id [] (generator_at string_author_fs))"
    by (rule spec)
  moreover have "kebabCase (simple_libs\<lparr>parseAuthor := \<lambda>s. []\<rparr>) = kebabCase simple_libs
               \<and> deburr (simple_libs\<lparr>parseAuthor := \<lambda>s. []\<rparr>) = deburr simple_libs
               \<and> path_join (simple_libs\<lparr>parseAuthor := \<lambda>s. []\<rparr>) = path_join simple_libs"
    by simp
  ultimately have "failure (run (simple_libs\<lparr>parseAuthor := \<lambda>s. []\<rparr>) example_replies id []
                            (generator_at string_author_fs))
                 = failure (run simple_libs example_replies id [] (generator_at string_author_fs))"
    by (rule mp)
  with ok have ok': "failure (run (simple_libs\<lparr>parseAuthor := \<lambda>s. []\<rparr>) example_replies id []
                   (generator_at string_author_fs)) = None"
    by simp
  from t have "\<exists>g'. initializing simple_libs (generator_at string_author_fs) = Inr g'
           \<and> get (props g') ''authorName'' = get (parseAuthor simple_libs ''Jane Doe'') ''name''
           \<and> get (props g') ''authorEmail'' = get (parseAuthor simple_libs ''Jane Doe'') ''email''
           \<and> get (props g') ''authorUrl'' = get (parseAuthor simple_libs ''Jane Doe'') ''url''
           \<and> (if truthy (get (parseAuthor simple_libs ''Jane Doe'') ''name'')
               then ''authorName'' \<notin> set (asked simple_libs example_replies g')
                    \<and> get (props (askFor simple_libs example_replies g')) ''authorName''
                        = get (parseAuthor simple_libs ''Jane Doe'') ''name''
               else ''authorName'' \<in> set (asked simple_libs example_replies g')
                    \<and> get (props (askFor simple_libs example_replies g')) ''authorName''
                        = JStr (reply_authorName example_replies))
           \<and> (if truthy (get (parseAuthor simple_libs ''Jane Doe'') ''email'')
               then ''authorEmail'' \<notin> set (asked simple_libs example_replies g')
                    \<and> get (props (askFor simple_libs example_replies g')) ''authorEmail''
                        = get (parseAuthor simple_libs ''Jane Doe'') ''email''
               else ''authorEmail'' \<in> set (asked simple_libs example_replies g')
                    \<and> get (props (askFor simple_libs example_replies g')) ''authorEmail''
                        = JStr (reply_authorEmail example_replies))
           \<and> (if truthy (get (parseAuthor simple_libs ''Jane Doe'') ''url'')
               then ''authorUrl'' \<notin> set (asked simple_libs example_replies g')
                    \<and> get (props (askFor simple_libs example_replies g')) ''authorUrl''
                        = get (parseAuthor simple_libs ''Jane Doe'') ''url''
               else ''authorUrl'' \<in> set (asked simple_libs example_replies g')
                    \<and> get (props (askFor simple_libs example_replies g')) ''authorUrl''
                        = JStr (reply_authorUrl example_replies))"
    by (rule conjunct1)
  then have "\<exists>g'. initializing simple_libs (generator_at string_author_fs) = Inr g'
     \<and> get (props g') ''authorName'' = JStr ''Jane Doe''
     \<and> ''authorName'' \<notin> set (asked simple_libs example_replies g')
     \<and> get (props (askFor simple_libs example_replies g')) ''authorName'' = JStr ''Jane Doe''
     \<and> get (props g') ''authorEmail'' = JUndefined
     \<and> ''authorEmail'' \<in> set (asked simple_libs example_replies g')
     \<and> get (props (askFor simple_libs example_replies g')) ''authorEmail'' = JStr ''jane@x.org''
     \<and> ''authorUrl'' \<in> set (asked simple_libs example_replies g')
     \<and> get (props (askFor simple_libs example_replies g')) ''authorUrl'' = JStr ''http://jane.x.org''"
    using init_string_author
    by (simp add: p get_Cons get_Nil example_replies_def)
  with ok ok' show ?thesis
    by blast
qed

end
